theory Spec2Isabelle
  imports Main
begin

section \<open>Three-address code generation of the Mini-C compiler (ast.h)\<close>

text \<open>
  The header \<^verbatim>\<open>ast.h\<close> defines the syntax-tree classes of the compiler and, for
  each class, the method \<^verbatim>\<open>generate_code(outcode, symbol_to_temp, temp_count,
  label_count)\<close> that writes three-address code to the stream \<^verbatim>\<open>outcode\<close>.
  The four arguments are passed by reference and mutated, and \<^verbatim>\<open>VarNode\<close> owns
  two static members, \<^verbatim>\<open>force_fresh_load\<close> and \<^verbatim>\<open>last_access\<close>, that
  every translation shares. The model threads all six through the translation as one
  record.

  The counters are C++ \<^verbatim>\<open>int\<close>s. Overflow of a signed integer is undefined
  behaviour, so the model uses unbounded integers and covers the runs in which the
  counters stay below \<open>2^31\<close>.
\<close>

subsection \<open>Decimal rendering: \<^verbatim>\<open>std::to_string\<close>\<close>

definition digit_char :: "nat \<Rightarrow> char" where
  "digit_char d = ''0123456789'' ! d"

fun digits :: "nat \<Rightarrow> string" where
  "digits n = (if n < 10 then [digit_char n] else digits (n div 10) @ [digit_char (n mod 10)])"

declare digits.simps [simp del]

definition to_string :: "int \<Rightarrow> string" where
  "to_string i = (if i < 0 then CHR ''-'' # digits (nat (- i)) else digits (nat i))"

subsection \<open>The emitted lines\<close>

text \<open>
  Every \<^verbatim>\<open>outcode << ... << endl\<close> of the source writes one line. The model
  keeps, for each line, which statement of the source wrote it and with which operands
  (\<open>instr\<close>); \<open>render\<close> gives the text of the line, character by character as the
  source concatenates it.
\<close>

datatype instr =
    ILoad string string                \<comment> \<open>\<^verbatim>\<open>temp = name\<close> (VarNode, call argument)\<close>
  | ILoadIdx string string string      \<comment> \<open>\<^verbatim>\<open>temp = name[idx]\<close>\<close>
  | IConst string string               \<comment> \<open>\<^verbatim>\<open>temp = value\<close> (ConstNode)\<close>
  | IBinOp string string string string \<comment> \<open>\<^verbatim>\<open>temp = l op r\<close>\<close>
  | IUnOp string string string         \<comment> \<open>\<^verbatim>\<open>temp = opval\<close>\<close>
  | IStore string string               \<comment> \<open>\<^verbatim>\<open>name = rval\<close> (AssignNode)\<close>
  | IStoreIdx string string string     \<comment> \<open>\<^verbatim>\<open>name[idx] = rval\<close>\<close>
  | IParam string                      \<comment> \<open>\<^verbatim>\<open>param temp\<close>\<close>
  | ICallVoid string nat               \<comment> \<open>\<^verbatim>\<open>call name, n\<close>\<close>
  | ICall string string nat            \<comment> \<open>\<^verbatim>\<open>temp = call name, n\<close>\<close>
  | IIfGoto string string              \<comment> \<open>\<^verbatim>\<open>if temp goto label\<close>\<close>
  | IGoto string                       \<comment> \<open>\<^verbatim>\<open>goto label\<close>\<close>
  | ILabel string                      \<comment> \<open>\<^verbatim>\<open>label:\<close>\<close>
  | IReturnVal string                  \<comment> \<open>\<^verbatim>\<open>return val\<close>\<close>
  | IReturn                            \<comment> \<open>\<^verbatim>\<open>return\<close>\<close>
  | IDecl string string int            \<comment> \<open>\<^verbatim>\<open>// Declaration: type name[size]\<close>\<close>
  | IFuncHeader string string "(string \<times> string) list"
                                       \<comment> \<open>\<^verbatim>\<open>// Function: type name(params)\<close>\<close>
  | IBlank                             \<comment> \<open>the empty line after a function\<close>

fun render_params :: "(string \<times> string) list \<Rightarrow> string" where
  "render_params [] = []"
| "render_params [(ty, nm)] = ty @ '' '' @ nm"
| "render_params ((ty, nm) # p # ps) = ty @ '' '' @ nm @ '', '' @ render_params (p # ps)"

fun render :: "instr \<Rightarrow> string" where
  "render (ILoad temp name) = temp @ '' = '' @ name"
| "render (ILoadIdx temp name idx) = temp @ '' = '' @ name @ ''['' @ idx @ '']''"
| "render (IConst temp val) = temp @ '' = '' @ val"
| "render (IBinOp temp l op r) = temp @ '' = '' @ l @ '' '' @ op @ '' '' @ r"
| "render (IUnOp temp op val) = temp @ '' = '' @ op @ val"
| "render (IStore name rval) = name @ '' = '' @ rval"
| "render (IStoreIdx name idx rval) = name @ ''['' @ idx @ ''] = '' @ rval"
| "render (IParam temp) = ''param '' @ temp"
| "render (ICallVoid name n) = ''call '' @ name @ '', '' @ to_string (int n)"
| "render (ICall temp name n) = temp @ '' = call '' @ name @ '', '' @ to_string (int n)"
| "render (IIfGoto temp l) = ''if '' @ temp @ '' goto '' @ l"
| "render (IGoto l) = ''goto '' @ l"
| "render (ILabel l) = l @ '':''"
| "render (IReturnVal val) = ''return '' @ val"
| "render IReturn = ''return''"
| "render (IDecl ty name sz) =
     ''// Declaration: '' @ ty @ '' '' @ name @ (if sz > 0 then ''['' @ to_string sz @ '']'' else [])"
| "render (IFuncHeader ret name params) =
     ''// Function: '' @ ret @ '' '' @ name @ ''('' @ render_params params @ '')''"
| "render IBlank = []"

subsection \<open>The syntax tree\<close>

text \<open>
  One constructor per concrete class, with the members of the class in the order of its
  declaration; the last argument of an expression constructor is
  \<^verbatim>\<open>ExprNode::node_type\<close>. A pointer that the source tests before use is an
  \<open>option\<close>. A pointer that \<^verbatim>\<open>generate_code\<close> dereferences without a test
  (the operands of an operator, both sides of an assignment, the condition of an
  \<^verbatim>\<open>if\<close> and of a \<^verbatim>\<open>while\<close>) is a plain child: a null pointer there is
  undefined behaviour, outside the model. \<^verbatim>\<open>AssignNode::lhs\<close> is a
  \<^verbatim>\<open>VarNode*\<close>, of which the translation uses the name and the index only; its
  three members are the first three arguments of \<open>AssignNode\<close>. The vectors of
  \<^verbatim>\<open>BlockNode\<close>, \<^verbatim>\<open>FuncCallNode\<close> and \<^verbatim>\<open>ProgramNode\<close> hold no
  null pointer, since the \<^verbatim>\<open>add_...\<close> methods drop it.
\<close>

datatype expr =
    VarNode string string "expr option"
  | ConstNode string string
  | BinaryOpNode string expr expr string
  | UnaryOpNode string expr string
  | AssignNode string string "expr option" expr string
  | FuncCallNode string "expr list" string

datatype stmt =
    ExprStmtNode "expr option"
  | BlockNode "stmt list"
  | IfNode expr "stmt option" "stmt option"
  | WhileNode expr "stmt option"
  | ForNode "node option" "node option" "expr option" "stmt option"
  | ReturnNode "expr option"
  | DeclNode string "(string \<times> int) list"
and node =
    Stmt stmt
  | Expr expr
  | FuncDeclNode string string "(string \<times> string) list" "stmt list option"
  | ArgumentsNode "expr list"
  | ProgramNode "node list"

subsection \<open>The translation context\<close>

record ctx =
  outcode :: "instr list"
  symbol_to_temp :: "string \<rightharpoonup> string"
  temp_count :: int
  label_count :: int
  force_fresh_load :: bool
  last_access :: "string \<rightharpoonup> string"

definition emit :: "instr \<Rightarrow> ctx \<Rightarrow> ctx" where
  "emit i c = c\<lparr>outcode := outcode c @ [i]\<rparr>"

text \<open>\<^verbatim>\<open>"t" + to_string(temp_count++)\<close> and \<^verbatim>\<open>"L" + to_string(label_count++)\<close>.\<close>

definition new_temp :: "ctx \<Rightarrow> string \<times> ctx" where
  "new_temp c = (''t'' @ to_string (temp_count c), c\<lparr>temp_count := temp_count c + 1\<rparr>)"

definition new_label :: "ctx \<Rightarrow> string \<times> ctx" where
  "new_label c = (''L'' @ to_string (label_count c), c\<lparr>label_count := label_count c + 1\<rparr>)"

subsection \<open>Expressions\<close>

text \<open>
  \<open>gen_expr\<close> is \<^verbatim>\<open>generate_code\<close> of the six expression classes: it returns
  the string the method returns and the context it leaves. \<open>generate_index_code\<close> is
  the method of that name of \<^verbatim>\<open>VarNode\<close>. \<open>gen_args\<close> is the loop over the
  arguments in \<^verbatim>\<open>FuncCallNode::generate_code\<close>, and \<open>gen_arg\<close> the part of
  its body that computes \<^verbatim>\<open>arg_temp\<close>: the first equation is the branch taken when
  \<^verbatim>\<open>dynamic_cast<VarNode*>(arg)\<close> succeeds, the second the other branch.
\<close>

fun gen_expr :: "expr \<Rightarrow> ctx \<Rightarrow> string \<times> ctx"
and generate_index_code :: "expr option \<Rightarrow> ctx \<Rightarrow> string \<times> ctx"
and gen_arg :: "expr \<Rightarrow> ctx \<Rightarrow> string \<times> ctx"
and gen_args :: "expr list \<Rightarrow> ctx \<Rightarrow> ctx" where
  "gen_expr (VarNode name ty index) c =
     (case (if index = None \<and> \<not> force_fresh_load c then symbol_to_temp c name else None) of
        Some temp \<Rightarrow>
          (temp, c\<lparr>temp_count := temp_count c + 1, last_access := (last_access c)(name \<mapsto> temp)\<rparr>)
      | None \<Rightarrow>
          (let (temp, c1) = new_temp c;
               c2 = (if index = None then emit (ILoad temp name) c1
                     else (let (idx_temp, c') = generate_index_code index c1
                           in emit (ILoadIdx temp name idx_temp) c'))
           in (temp, c2\<lparr>symbol_to_temp := (symbol_to_temp c2)(name \<mapsto> temp),
                         last_access := (last_access c2)(name \<mapsto> temp)\<rparr>)))"
| "gen_expr (ConstNode val ty) c =
     (let (temp, c1) = new_temp c in (temp, emit (IConst temp val) c1))"
| "gen_expr (BinaryOpNode op left right ty) c =
     (let (l, c1) = gen_expr left c;
          (r, c2) = gen_expr right c1;
          (temp, c3) = new_temp c2
      in (temp, emit (IBinOp temp l op r) c3))"
| "gen_expr (UnaryOpNode op e ty) c =
     (let (val, c1) = gen_expr e c;
          (temp, c2) = new_temp c1
      in (temp, emit (IUnOp temp op val) c2))"
| "gen_expr (AssignNode lhs_name lhs_ty lhs_index rhs ty) c =
     (let (rval, c1) = gen_expr rhs c
      in if lhs_index \<noteq> None then
           (let (idx, c2) = generate_index_code lhs_index c1
            in (rval, emit (IStoreIdx lhs_name idx rval) c2))
         else
           (let c2 = emit (IStore lhs_name rval) c1
            in (rval, c2\<lparr>symbol_to_temp := (symbol_to_temp c2)(lhs_name \<mapsto> rval)\<rparr>)))"
| "gen_expr (FuncCallNode func_name arguments ty) c =
     (let c1 = gen_args arguments c
      in if ty = ''void'' then ([], emit (ICallVoid func_name (length arguments)) c1)
         else (let (temp, c2) = new_temp c1
               in (temp, emit (ICall temp func_name (length arguments)) c2)))"
| "generate_index_code None c = ([], c)"
| "generate_index_code (Some index) c = gen_expr index c"
| "gen_arg (VarNode name ty index) c =
     (let (arg_temp, c1) = new_temp c
      in if index \<noteq> None then
           (let (idx_temp, c2) = generate_index_code index c1
            in (arg_temp, emit (ILoadIdx arg_temp name idx_temp) c2))
         else (arg_temp, emit (ILoad arg_temp name) c1))"
| "gen_arg arg c = gen_expr arg c"
| "gen_args [] c = c"
| "gen_args (arg # rest) c =
     (let (arg_temp, c1) = gen_arg arg c
      in gen_args rest (emit (IParam arg_temp) c1))"

subsection \<open>Statements, function declarations and the program\<close>

text \<open>
  \<open>gen_stmt\<close> is \<^verbatim>\<open>generate_code\<close> of the seven statement classes. These
  methods all return the empty string, which no caller reads, so the model returns the
  context only. \<open>gen_stmts\<close> is the loop of \<^verbatim>\<open>BlockNode\<close>, \<open>gen_stmt_opt\<close>
  the guarded call \<^verbatim>\<open>if (p) p->generate_code(...)\<close> on a statement pointer,
  \<open>for_init\<close> and \<open>for_cond\<close> the two blocks of \<^verbatim>\<open>ForNode::generate_code\<close>
  that select on the dynamic type of \<^verbatim>\<open>init\<close> and \<^verbatim>\<open>condition\<close>
  (\<open>for_cond\<close> returns \<^verbatim>\<open>cond_temp\<close>), \<open>gen_node\<close> the virtual call on an
  \<^verbatim>\<open>ASTNode*\<close> and \<open>gen_nodes\<close> the loop of \<^verbatim>\<open>ProgramNode\<close>.

  In \<open>for_cond\<close>, the source empties \<^verbatim>\<open>symbol_to_temp\<close> and then copies every
  entry of \<^verbatim>\<open>last_access\<close> into it; the result is the map \<^verbatim>\<open>last_access\<close>.
\<close>

definition gen_decl :: "string \<Rightarrow> (string \<times> int) list \<Rightarrow> ctx \<Rightarrow> ctx" where
  "gen_decl ty vars c = fold (\<lambda>v. emit (IDecl ty (fst v) (snd v))) vars c"

fun gen_stmt :: "stmt \<Rightarrow> ctx \<Rightarrow> ctx"
and gen_stmts :: "stmt list \<Rightarrow> ctx \<Rightarrow> ctx"
and gen_stmt_opt :: "stmt option \<Rightarrow> ctx \<Rightarrow> ctx"
and for_init :: "node option \<Rightarrow> ctx \<Rightarrow> ctx"
and for_cond :: "node option \<Rightarrow> ctx \<Rightarrow> string \<times> ctx"
and gen_node :: "node \<Rightarrow> ctx \<Rightarrow> ctx"
and gen_nodes :: "node list \<Rightarrow> ctx \<Rightarrow> ctx" where
  "gen_stmt (ExprStmtNode None) c = c"
| "gen_stmt (ExprStmtNode (Some e)) c = snd (gen_expr e c)"
| "gen_stmt (BlockNode statements) c = gen_stmts statements c"
| "gen_stmt (IfNode condition then_block else_block) c =
     (let (cond_temp, c1) = gen_expr condition c;
          (true_label, c2) = new_label c1;
          (false_label, c3) = new_label c2;
          (end_label, c4) = new_label c3;
          c5 = emit (IIfGoto cond_temp true_label) c4;
          c6 = emit (IGoto false_label) c5;
          c7 = emit (ILabel true_label) c6;
          c8 = gen_stmt_opt then_block c7;
          c9 = emit (IGoto end_label) c8;
          c10 = emit (ILabel false_label) c9;
          c11 = gen_stmt_opt else_block c10
      in emit (ILabel end_label) c11)"
| "gen_stmt (WhileNode condition body) c =
     (let (start_label, c1) = new_label c;
          (body_label, c2) = new_label c1;
          (end_label, c3) = new_label c2;
          c4 = emit (ILabel start_label) c3;
          (cond_temp, c5) = gen_expr condition c4;
          c6 = emit (IIfGoto cond_temp body_label) c5;
          c7 = emit (IGoto end_label) c6;
          c8 = emit (ILabel body_label) c7;
          c9 = gen_stmt_opt body c8;
          c10 = emit (IGoto start_label) c9
      in emit (ILabel end_label) c10)"
| "gen_stmt (ForNode init condition update body) c =
     (let c0 = for_init init c;
          (start_label, c1) = new_label c0;
          (body_label, c2) = new_label c1;
          (end_label, c3) = new_label c2;
          c4 = emit (ILabel start_label) c3;
          (cond_temp, c5) = for_cond condition c4;
          c6 = emit (IIfGoto cond_temp body_label) c5;
          c7 = emit (IGoto end_label) c6;
          c8 = emit (ILabel body_label) c7;
          c9 = gen_stmt_opt body c8;
          c10 = (case update of None \<Rightarrow> c9 | Some u \<Rightarrow> snd (gen_expr u c9));
          c11 = emit (IGoto start_label) c10
      in emit (ILabel end_label) c11)"
| "gen_stmt (ReturnNode None) c = emit IReturn c"
| "gen_stmt (ReturnNode (Some e)) c =
     (let (val, c1) = gen_expr e c in emit (IReturnVal val) c1)"
| "gen_stmt (DeclNode ty vars) c = gen_decl ty vars c"
| "gen_stmts [] c = c"
| "gen_stmts (s # ss) c = gen_stmts ss (gen_stmt s c)"
| "gen_stmt_opt None c = c"
| "gen_stmt_opt (Some s) c = gen_stmt s c"
| "for_init None c = c"
| "for_init (Some (Stmt s)) c = gen_stmt s c"
| "for_init (Some (Expr e)) c = snd (gen_expr e c)"
| "for_init (Some n) c = c"
| "for_cond None c = (''1'', c)"
| "for_cond (Some n) c =
     (let c1 = c\<lparr>last_access := Map.empty\<rparr>;
          c2 = c1\<lparr>force_fresh_load := True\<rparr>;
          (cond_temp, c3) =
            (case n of
               Stmt (ExprStmtNode (Some e)) \<Rightarrow> gen_expr e c2
             | Stmt (ExprStmtNode None) \<Rightarrow> (''1'', gen_stmt (ExprStmtNode None) c2)
             | Expr e \<Rightarrow> gen_expr e c2
             | Stmt s \<Rightarrow> (''1'', gen_stmt s c2)
             | _ \<Rightarrow> (''1'', c2));
          c4 = c3\<lparr>force_fresh_load := False\<rparr>
      in (cond_temp, c4\<lparr>symbol_to_temp := last_access c4\<rparr>))"
| "gen_node (Stmt s) c = gen_stmt s c"
| "gen_node (Expr e) c = snd (gen_expr e c)"
| "gen_node (FuncDeclNode return_type name params body) c =
     (let c1 = emit (IFuncHeader return_type name params) c;
          c2 = c1\<lparr>symbol_to_temp := Map.empty\<rparr>;
          c3 = (case body of None \<Rightarrow> c2 | Some b \<Rightarrow> gen_stmt (BlockNode b) c2)
      in emit IBlank c3)"
| "gen_node (ArgumentsNode args) c = c"
| "gen_node (ProgramNode units) c = gen_nodes units c"
| "gen_nodes [] c = c"
| "gen_nodes (u # us) c = gen_nodes us (gen_node u c)"

subsection \<open>Notions used to state the properties\<close>

text \<open>
  The definitions of this subsection are not part of the translation; the properties
  below are stated with them.

  \<open>emitted c c'\<close> is what the output of \<open>c'\<close> holds beyond the length of the output of
  \<open>c\<close>, and \<open>appended c c'\<close> says that the output of \<open>c'\<close> is the output of \<open>c\<close>
  followed by it: the stream was only written at its end. \<open>labels_of\<close> lists the labels
  that a sequence of lines defines (its \<^verbatim>\<open>Lk:\<close> lines), in order, and \<open>params_of\<close> the
  operands of its \<^verbatim>\<open>param\<close> lines.
\<close>

definition emitted :: "ctx \<Rightarrow> ctx \<Rightarrow> instr list" where
  "emitted c c' = drop (length (outcode c)) (outcode c')"

definition appended :: "ctx \<Rightarrow> ctx \<Rightarrow> bool" where
  "appended c c' \<longleftrightarrow> outcode c' = outcode c @ emitted c c'"

fun label_of :: "instr \<Rightarrow> string list" where
  "label_of (ILabel l) = [l]"
| "label_of i = []"

definition labels_of :: "instr list \<Rightarrow> string list" where
  "labels_of xs = concat (map label_of xs)"

fun param_of :: "instr \<Rightarrow> string list" where
  "param_of (IParam t) = [t]"
| "param_of i = []"

definition params_of :: "instr list \<Rightarrow> string list" where
  "params_of xs = concat (map param_of xs)"

text \<open>
  Five measures of an expression, each following the recursion of \<open>gen_expr\<close> (an
  argument of a call that is a variable reference is handled by \<open>gen_arg\<close>, which
  translates its index expression only):
  \<^item> \<open>temps_used e\<close>, the number of times the translation of \<open>e\<close> increments
    \<^verbatim>\<open>temp_count\<close>;
  \<^item> \<open>call_args e\<close>, the number of arguments of all the calls in \<open>e\<close>;
  \<^item> \<open>accessed e\<close>, the names under which the translation of \<open>e\<close> writes
    \<^verbatim>\<open>last_access\<close>: the variables read through \<^verbatim>\<open>VarNode::generate_code\<close>;
  \<^item> \<open>cache_writes e\<close>, the names under which the translation of \<open>e\<close> can write
    \<^verbatim>\<open>symbol_to_temp\<close> at all, whatever the flag and the cache hold: the variables
    read through \<^verbatim>\<open>VarNode::generate_code\<close> and the targets of the scalar
    assignments;
  \<^item> \<open>overwrites e\<close>, the names under which the translation of \<open>e\<close> can replace an
    entry that \<^verbatim>\<open>symbol_to_temp\<close> already holds when the forced-fresh flag is clear:
    the targets of the scalar assignments and the base names of the indexed reads.
\<close>

fun temps_used :: "expr \<Rightarrow> nat"
and temps_used_index :: "expr option \<Rightarrow> nat"
and temps_used_args :: "expr list \<Rightarrow> nat" where
  "temps_used (VarNode name ty index) = 1 + temps_used_index index"
| "temps_used (ConstNode val ty) = 1"
| "temps_used (BinaryOpNode op left right ty) = temps_used left + temps_used right + 1"
| "temps_used (UnaryOpNode op e ty) = temps_used e + 1"
| "temps_used (AssignNode lhs_name lhs_ty lhs_index rhs ty) = temps_used rhs + temps_used_index lhs_index"
| "temps_used (FuncCallNode func_name arguments ty) =
     temps_used_args arguments + (if ty = ''void'' then 0 else 1)"
| "temps_used_index None = 0"
| "temps_used_index (Some index) = temps_used index"
| "temps_used_args [] = 0"
| "temps_used_args (arg # rest) = temps_used arg + temps_used_args rest"

fun call_args :: "expr \<Rightarrow> nat"
and call_args_index :: "expr option \<Rightarrow> nat"
and call_args_list :: "expr list \<Rightarrow> nat" where
  "call_args (VarNode name ty index) = call_args_index index"
| "call_args (ConstNode val ty) = 0"
| "call_args (BinaryOpNode op left right ty) = call_args left + call_args right"
| "call_args (UnaryOpNode op e ty) = call_args e"
| "call_args (AssignNode lhs_name lhs_ty lhs_index rhs ty) = call_args rhs + call_args_index lhs_index"
| "call_args (FuncCallNode func_name arguments ty) = length arguments + call_args_list arguments"
| "call_args_index None = 0"
| "call_args_index (Some index) = call_args index"
| "call_args_list [] = 0"
| "call_args_list (arg # rest) = call_args arg + call_args_list rest"


fun cache_writes :: "expr \<Rightarrow> string set"
and cache_writes_index :: "expr option \<Rightarrow> string set"
and cache_writes_arg :: "expr \<Rightarrow> string set"
and cache_writes_args :: "expr list \<Rightarrow> string set" where
  "cache_writes (VarNode name ty index) = insert name (cache_writes_index index)"
| "cache_writes (ConstNode val ty) = {}"
| "cache_writes (BinaryOpNode op left right ty) = cache_writes left \<union> cache_writes right"
| "cache_writes (UnaryOpNode op e ty) = cache_writes e"
| "cache_writes (AssignNode lhs_name lhs_ty lhs_index rhs ty) =
     cache_writes rhs \<union> (if lhs_index = None then {lhs_name} else cache_writes_index lhs_index)"
| "cache_writes (FuncCallNode func_name arguments ty) = cache_writes_args arguments"
| "cache_writes_index None = {}"
| "cache_writes_index (Some index) = cache_writes index"
| "cache_writes_arg (VarNode name ty index) = cache_writes_index index"
| "cache_writes_arg arg = cache_writes arg"
| "cache_writes_args [] = {}"
| "cache_writes_args (arg # rest) = cache_writes_arg arg \<union> cache_writes_args rest"

fun overwrites :: "expr \<Rightarrow> string set"
and overwrites_index :: "expr option \<Rightarrow> string set"
and overwrites_arg :: "expr \<Rightarrow> string set"
and overwrites_args :: "expr list \<Rightarrow> string set" where
  "overwrites (VarNode name ty index) =
     (if index = None then {} else insert name (overwrites_index index))"
| "overwrites (ConstNode val ty) = {}"
| "overwrites (BinaryOpNode op left right ty) = overwrites left \<union> overwrites right"
| "overwrites (UnaryOpNode op e ty) = overwrites e"
| "overwrites (AssignNode lhs_name lhs_ty lhs_index rhs ty) =
     overwrites rhs \<union> (if lhs_index = None then {lhs_name} else overwrites_index lhs_index)"
| "overwrites (FuncCallNode func_name arguments ty) = overwrites_args arguments"
| "overwrites_index None = {}"
| "overwrites_index (Some index) = overwrites index"
| "overwrites_arg (VarNode name ty index) = overwrites_index index"
| "overwrites_arg arg = overwrites arg"
| "overwrites_args [] = {}"
| "overwrites_args (arg # rest) = overwrites_arg arg \<union> overwrites_args rest"

text \<open>
  \<open>label_name k\<close> is the label that \<open>new_label\<close> returns when the counter is \<open>k\<close>.
  The following contexts are intermediate states of \<open>gen_stmt\<close> and \<open>gen_node\<close>, named
  so that properties of the state at that point can be stated; the lemmas
  \<open>gen_stmt_If\<close>, \<open>gen_stmt_While\<close>, \<open>gen_stmt_For\<close> and \<open>gen_node_FuncDecl\<close> below
  prove that the translation passes through them:
  \<^item> \<open>if_then_entry\<close>: an \<^verbatim>\<open>if\<close> after its condition, the allocation of its three
    labels and the lines \<^verbatim>\<open>if c goto Ltrue\<close>, \<^verbatim>\<open>goto Lfalse\<close>, \<^verbatim>\<open>Ltrue:\<close>,
    where the first branch is translated;
  \<^item> \<open>if_else_entry\<close>: after the first branch and the lines \<^verbatim>\<open>goto Lend\<close>,
    \<^verbatim>\<open>Lfalse:\<close>, where the second branch is translated;
  \<^item> \<open>while_cond_entry\<close>: a \<^verbatim>\<open>while\<close> after the allocation of its labels and the
    line \<^verbatim>\<open>Lstart:\<close>, where the condition is translated;
  \<^item> \<open>while_body_entry\<close>: after the condition and the lines \<^verbatim>\<open>if c goto Lbody\<close>,
    \<^verbatim>\<open>goto Lend\<close>, \<^verbatim>\<open>Lbody:\<close>, where the body is translated;
  \<^item> \<open>for_cond_entry\<close>, \<open>for_body_entry\<close>: the same two points of a \<^verbatim>\<open>for\<close>,
    the first after the init unit;
  \<^item> \<open>func_body_entry\<close>: a function declaration after its header line and
    \<^verbatim>\<open>symbol_to_temp.clear()\<close>, where the body is translated.
\<close>

definition label_name :: "int \<Rightarrow> string" where
  "label_name k = ''L'' @ to_string k"

definition if_then_entry :: "expr \<Rightarrow> ctx \<Rightarrow> ctx" where
  "if_then_entry condition c =
     (let (cond_temp, c1) = gen_expr condition c;
          k = label_count c
      in emit (ILabel (label_name k))
           (emit (IGoto (label_name (k + 1)))
              (emit (IIfGoto cond_temp (label_name k)) (c1\<lparr>label_count := k + 3\<rparr>))))"

definition if_else_entry :: "expr \<Rightarrow> stmt option \<Rightarrow> ctx \<Rightarrow> ctx" where
  "if_else_entry condition then_block c =
     (let k = label_count c
      in emit (ILabel (label_name (k + 1)))
           (emit (IGoto (label_name (k + 2)))
              (gen_stmt_opt then_block (if_then_entry condition c))))"

definition while_cond_entry :: "ctx \<Rightarrow> ctx" where
  "while_cond_entry c =
     (let k = label_count c in emit (ILabel (label_name k)) (c\<lparr>label_count := k + 3\<rparr>))"

definition while_body_entry :: "expr \<Rightarrow> ctx \<Rightarrow> ctx" where
  "while_body_entry condition c =
     (let k = label_count c;
          (cond_temp, c5) = gen_expr condition (while_cond_entry c)
      in emit (ILabel (label_name (k + 1)))
           (emit (IGoto (label_name (k + 2)))
              (emit (IIfGoto cond_temp (label_name (k + 1))) c5)))"

definition for_cond_entry :: "node option \<Rightarrow> ctx \<Rightarrow> ctx" where
  "for_cond_entry init c =
     (let c0 = for_init init c;
          k = label_count c0
      in emit (ILabel (label_name k)) (c0\<lparr>label_count := k + 3\<rparr>))"

definition for_body_entry :: "node option \<Rightarrow> node option \<Rightarrow> ctx \<Rightarrow> ctx" where
  "for_body_entry init condition c =
     (let k = label_count (for_init init c);
          (cond_temp, c5) = for_cond condition (for_cond_entry init c)
      in emit (ILabel (label_name (k + 1)))
           (emit (IGoto (label_name (k + 2)))
              (emit (IIfGoto cond_temp (label_name (k + 1))) c5)))"

definition func_body_entry :: "string \<Rightarrow> string \<Rightarrow> (string \<times> string) list \<Rightarrow> ctx \<Rightarrow> ctx" where
  "func_body_entry return_type name params c =
     (emit (IFuncHeader return_type name params) c)\<lparr>symbol_to_temp := Map.empty\<rparr>"

text \<open>
  \<open>labels_added c c' A\<close>: from \<open>c\<close> to \<open>c'\<close> the output was only appended to, and the
  labels defined by the appended lines are the \<open>label_name k\<close> for \<open>k\<close> in \<open>A\<close>, each
  defined once.
\<close>

definition labels_added :: "ctx \<Rightarrow> ctx \<Rightarrow> int set \<Rightarrow> bool" where
  "labels_added c c' A \<longleftrightarrow>
     appended c c' \<and> distinct (labels_of (emitted c c')) \<and>
     set (labels_of (emitted c c')) = label_name ` A"

text \<open>
  \<open>keeps_cached x s\<close>: no expression of the statement \<open>s\<close> overwrites the cache entry of
  \<open>x\<close>, and no \<^verbatim>\<open>for\<close> loop in \<open>s\<close> has a condition unit (whose evaluation replaces the
  whole cache). Calls and reads of \<open>x\<close> may occur in \<open>s\<close>.
\<close>

fun keeps_cached :: "string \<Rightarrow> stmt \<Rightarrow> bool"
and keeps_cached_list :: "string \<Rightarrow> stmt list \<Rightarrow> bool"
and keeps_cached_opt :: "string \<Rightarrow> stmt option \<Rightarrow> bool"
and keeps_cached_init :: "string \<Rightarrow> node option \<Rightarrow> bool" where
  "keeps_cached x (ExprStmtNode eo) = (x \<notin> overwrites_index eo)"
| "keeps_cached x (BlockNode statements) = keeps_cached_list x statements"
| "keeps_cached x (IfNode condition then_block else_block) =
     (x \<notin> overwrites condition \<and> keeps_cached_opt x then_block \<and> keeps_cached_opt x else_block)"
| "keeps_cached x (WhileNode condition body) =
     (x \<notin> overwrites condition \<and> keeps_cached_opt x body)"
| "keeps_cached x (ForNode init condition update body) =
     (keeps_cached_init x init \<and> condition = None \<and> x \<notin> overwrites_index update \<and>
      keeps_cached_opt x body)"
| "keeps_cached x (ReturnNode eo) = (x \<notin> overwrites_index eo)"
| "keeps_cached x (DeclNode ty vars) = True"
| "keeps_cached_list x [] = True"
| "keeps_cached_list x (s # ss) = (keeps_cached x s \<and> keeps_cached_list x ss)"
| "keeps_cached_opt x None = True"
| "keeps_cached_opt x (Some s) = keeps_cached x s"
| "keeps_cached_init x None = True"
| "keeps_cached_init x (Some (Stmt s)) = keeps_cached x s"
| "keeps_cached_init x (Some (Expr e)) = (x \<notin> overwrites e)"
| "keeps_cached_init x (Some n) = True"

section \<open>General properties of the translation\<close>

subsection \<open>Decimal rendering is injective\<close>

lemma less_10_cases: "(a::nat) < 10 \<longleftrightarrow> a \<in> {0, 1, 2, 3, 4, 5, 6, 7, 8, 9}"
  by auto

lemma digit_char_inj: "a < 10 \<Longrightarrow> b < 10 \<Longrightarrow> digit_char a = digit_char b \<Longrightarrow> a = b"
  unfolding less_10_cases digit_char_def by auto

lemma digit_char_not_minus: "a < 10 \<Longrightarrow> digit_char a \<noteq> CHR ''-''"
  unfolding less_10_cases digit_char_def by auto

lemma digits_not_Nil: "digits n \<noteq> []"
  by (subst digits.simps) simp

lemma digits_no_minus: "CHR ''-'' \<notin> set (digits n)"
proof (induction n rule: digits.induct)
  case (1 n)
  show ?case
  proof (cases "n < 10")
    case True
    then show ?thesis using digit_char_not_minus [of n] by (subst digits.simps) auto
  next
    case False
    have "n mod 10 < 10" by simp
    then have "digit_char (n mod 10) \<noteq> CHR ''-''" by (rule digit_char_not_minus)
    with False "1.IH" show ?thesis by (subst digits.simps) auto
  qed
qed

lemma digits_inj: "digits n = digits m \<Longrightarrow> n = m"
proof (induction n arbitrary: m rule: digits.induct)
  case (1 n)
  show ?case
  proof (cases "n < 10")
    case n: True
    show ?thesis
    proof (cases "m < 10")
      case True
      with n "1.prems" show ?thesis
        by (simp add: digits.simps [of n] digits.simps [of m] digit_char_inj)
    next
      case False
      with n "1.prems" digits_not_Nil [of "m div 10"] show ?thesis
        by (simp add: digits.simps [of n] digits.simps [of m])
    qed
  next
    case n: False
    show ?thesis
    proof (cases "m < 10")
      case True
      with n "1.prems" digits_not_Nil [of "n div 10"] show ?thesis
        by (simp add: digits.simps [of n] digits.simps [of m])
    next
      case False
      with n "1.prems" have eq: "digits (n div 10) = digits (m div 10)"
        and d: "digit_char (n mod 10) = digit_char (m mod 10)"
        by (simp_all add: digits.simps [of n] digits.simps [of m])
      from "1.IH" [OF n eq] have "n div 10 = m div 10" .
      moreover from d have "n mod 10 = m mod 10" by (simp add: digit_char_inj)
      ultimately show ?thesis by (metis div_mult_mod_eq)
    qed
  qed
qed

lemma to_string_inj: "to_string i = to_string j \<Longrightarrow> i = j"
proof -
  assume eq: "to_string i = to_string j"
  have neg_pos: False if "CHR ''-'' # digits a = digits b" for a b
  proof -
    from that have "CHR ''-'' \<in> set (digits b)" by (metis list.set_intros(1))
    then show False by (simp add: digits_no_minus)
  qed
  show ?thesis
  proof (cases "i < 0"; cases "j < 0")
    assume "i < 0" "j < 0"
    with eq have "nat (- i) = nat (- j)" by (simp add: to_string_def digits_inj)
    with \<open>i < 0\<close> \<open>j < 0\<close> show ?thesis by simp
  next
    assume "i < 0" "\<not> j < 0"
    with eq neg_pos show ?thesis by (simp add: to_string_def)
  next
    assume "\<not> i < 0" "j < 0"
    with eq neg_pos [of "nat (- j)" "nat i"] show ?thesis by (simp add: to_string_def)
  next
    assume "\<not> i < 0" "\<not> j < 0"
    with eq have "nat i = nat j" by (simp add: to_string_def digits_inj)
    with \<open>\<not> i < 0\<close> \<open>\<not> j < 0\<close> show ?thesis by simp
  qed
qed

subsection \<open>Induction along the translation of expressions\<close>

text \<open>
  The induction rule of \<open>gen_expr\<close> with the contexts of the recursive calls written
  out: the index of a variable is translated after a temporary has been allocated, the
  right operand in the context the left operand leaves.
\<close>


lemma gen_expr_induct [case_names Var Const Bin Un Assign Call IdxNone IdxSome ArgVar ArgConst ArgBin ArgUn ArgAssign ArgCall ArgsNil ArgsCons]:
  fixes P :: "expr \<Rightarrow> ctx \<Rightarrow> bool" and Q :: "expr option \<Rightarrow> ctx \<Rightarrow> bool"
    and R :: "expr \<Rightarrow> ctx \<Rightarrow> bool" and S :: "expr list \<Rightarrow> ctx \<Rightarrow> bool"
  assumes Var: "\<And>name ty index c. (index \<noteq> None \<Longrightarrow> Q index (snd (new_temp c))) \<Longrightarrow> P (VarNode name ty index) c"
    and Const: "\<And>val ty c. P (ConstNode val ty) c"
    and Bin: "\<And>op left right ty c. P left c \<Longrightarrow> P right (snd (gen_expr left c)) \<Longrightarrow> P (BinaryOpNode op left right ty) c"
    and Un: "\<And>op e ty c. P e c \<Longrightarrow> P (UnaryOpNode op e ty) c"
    and Assign: "\<And>lhs_name lhs_ty lhs_index rhs ty c. P rhs c \<Longrightarrow>
                   (lhs_index \<noteq> None \<Longrightarrow> Q lhs_index (snd (gen_expr rhs c))) \<Longrightarrow>
                   P (AssignNode lhs_name lhs_ty lhs_index rhs ty) c"
    and Call: "\<And>func_name arguments ty c. S arguments c \<Longrightarrow> P (FuncCallNode func_name arguments ty) c"
    and IdxNone: "\<And>c. Q None c"
    and IdxSome: "\<And>index c. P index c \<Longrightarrow> Q (Some index) c"
    and ArgVar: "\<And>name ty index c. (index \<noteq> None \<Longrightarrow> Q index (snd (new_temp c))) \<Longrightarrow> R (VarNode name ty index) c"
    and ArgConst: "\<And>val ty c. P (ConstNode val ty) c \<Longrightarrow> R (ConstNode val ty) c"
    and ArgBin: "\<And>op left right ty c. P (BinaryOpNode op left right ty) c \<Longrightarrow> R (BinaryOpNode op left right ty) c"
    and ArgUn: "\<And>op e ty c. P (UnaryOpNode op e ty) c \<Longrightarrow> R (UnaryOpNode op e ty) c"
    and ArgAssign: "\<And>lhs_name lhs_ty lhs_index rhs ty c. P (AssignNode lhs_name lhs_ty lhs_index rhs ty) c \<Longrightarrow>
                      R (AssignNode lhs_name lhs_ty lhs_index rhs ty) c"
    and ArgCall: "\<And>func_name arguments ty c. P (FuncCallNode func_name arguments ty) c \<Longrightarrow>
                    R (FuncCallNode func_name arguments ty) c"
    and ArgsNil: "\<And>c. S [] c"
    and ArgsCons: "\<And>arg rest c. R arg c \<Longrightarrow>
                     S rest (emit (IParam (fst (gen_arg arg c))) (snd (gen_arg arg c))) \<Longrightarrow> S (arg # rest) c"
  shows "P e c" and "Q i c" and "R a c" and "S as c"
proof (induction e c and i c and a c and as c rule: gen_expr_generate_index_code_gen_arg_gen_args.induct)
  case (1 name ty index c)
  show ?case
  proof (rule Var)
    assume "index \<noteq> None"
    then show "Q index (snd (new_temp c))"
      using "1.IH" [OF _ refl prod.collapse] by simp
  qed
next
  case (3 op left right ty c)
  from "3.IH"(1) "3.IH"(2) [OF refl prod.collapse] show ?case by (rule Bin)
next
  case (5 lhs_name lhs_ty lhs_index rhs ty c)
  from "5.IH"(1) "5.IH"(2) [OF refl prod.collapse] show ?case by (rule Assign)
next
  case (9 name ty index c)
  from "9.IH" [OF refl prod.collapse] show ?case by (rule ArgVar)
next
  case (12 arg rest c)
  from "12.IH"(1) "12.IH"(2) [OF refl prod.collapse] show ?case by (rule ArgsCons)
qed (simp_all add: assms)

subsection \<open>What an expression leaves unchanged, and what it appends\<close>

text \<open>
  An expression changes neither the label counter nor the forced-fresh flag, defines no
  label, advances the temporary counter by \<open>temps_used\<close>, only appends to the output,
  records in \<^verbatim>\<open>last_access\<close> the names of \<open>accessed\<close>, and with the flag clear
  keeps every cache entry outside \<open>overwrites\<close>.
\<close>

lemma gen_expr_label_count [simp]:
  "label_count (snd (gen_expr e c)) = label_count c"
  "label_count (snd (generate_index_code i c)) = label_count c"
  "label_count (snd (gen_arg a c)) = label_count c"
  "label_count (gen_args as c) = label_count c"
  by (induction e c and i c and a c and as c rule: gen_expr_induct)
    (simp_all add: split_beta Let_def new_temp_def emit_def split: option.splits)

lemma gen_expr_force_fresh [simp]:
  "force_fresh_load (snd (gen_expr e c)) = force_fresh_load c"
  "force_fresh_load (snd (generate_index_code i c)) = force_fresh_load c"
  "force_fresh_load (snd (gen_arg a c)) = force_fresh_load c"
  "force_fresh_load (gen_args as c) = force_fresh_load c"
  by (induction e c and i c and a c and as c rule: gen_expr_induct)
    (simp_all add: split_beta Let_def new_temp_def emit_def split: option.splits)


lemma labels_of_simps [simp]:
  "labels_of [] = []"
  "labels_of (xs @ ys) = labels_of xs @ labels_of ys"
  "labels_of (i # xs) = label_of i @ labels_of xs"
  by (simp_all add: labels_of_def)

lemma appendedI: "outcode c' = outcode c @ ys \<Longrightarrow> appended c c'"
  by (simp add: appended_def emitted_def)

lemma appended_refl [simp]: "appended c c"
  by (rule appendedI [where ys = "[]"]) simp

lemma appended_trans: "appended a b \<Longrightarrow> appended b c \<Longrightarrow> appended a c"
proof -
  assume "appended a b" "appended b c"
  then have "outcode c = outcode a @ (emitted a b @ emitted b c)"
    by (simp add: appended_def)
  then show ?thesis by (rule appendedI)
qed

lemma emitted_trans: "appended a b \<Longrightarrow> appended b c \<Longrightarrow> emitted a c = emitted a b @ emitted b c"
proof -
  assume "appended a b" "appended b c"
  then have "outcode c = outcode a @ (emitted a b @ emitted b c)"
    by (simp add: appended_def)
  then have "drop (length (outcode a)) (outcode c) =
      drop (length (outcode a)) (outcode a @ (emitted a b @ emitted b c))"
    by (rule arg_cong)
  then show ?thesis by (simp add: emitted_def [of a c])
qed

lemma appended_cong: "outcode c' = outcode c \<Longrightarrow> appended c0 c' = appended c0 c"
  by (simp add: appended_def emitted_def)

lemma appended_emit [simp]: "appended c0 c \<Longrightarrow> appended c0 (emit i c)"
  by (erule appended_trans) (rule appendedI [where ys = "[i]"], simp add: emit_def)

lemma appended_updates [simp]:
  "appended c0 (c\<lparr>symbol_to_temp := m\<rparr>) = appended c0 c"
  "appended c0 (c\<lparr>last_access := m\<rparr>) = appended c0 c"
  "appended c0 (c\<lparr>temp_count := n\<rparr>) = appended c0 c"
  "appended c0 (c\<lparr>label_count := n\<rparr>) = appended c0 c"
  "appended c0 (c\<lparr>force_fresh_load := b\<rparr>) = appended c0 c"
  "appended c0 (snd (new_temp c)) = appended c0 c"
  "appended c0 (snd (new_label c)) = appended c0 c"
  by (rule appended_cong, simp add: new_temp_def new_label_def)+

lemma gen_expr_labels [simp]:
  "labels_of (outcode (snd (gen_expr e c))) = labels_of (outcode c)"
  "labels_of (outcode (snd (generate_index_code i c))) = labels_of (outcode c)"
  "labels_of (outcode (snd (gen_arg a c))) = labels_of (outcode c)"
  "labels_of (outcode (gen_args as c)) = labels_of (outcode c)"
  by (induction e c and i c and a c and as c rule: gen_expr_induct)
    (simp_all add: split_beta Let_def new_temp_def emit_def split: option.splits)

lemma gen_expr_temp_count:
  "temp_count (snd (gen_expr e c)) = temp_count c + int (temps_used e)"
  "temp_count (snd (generate_index_code i c)) = temp_count c + int (temps_used_index i)"
  "temp_count (snd (gen_arg a c)) = temp_count c + int (temps_used a)"
  "temp_count (gen_args as c) = temp_count c + int (temps_used_args as)"
  by (induction e c and i c and a c and as c rule: gen_expr_induct)
    (simp_all add: split_beta Let_def new_temp_def emit_def split: option.splits)

lemma gen_expr_appended [simp]:
  "appended c0 c \<Longrightarrow> appended c0 (snd (gen_expr e c))"
  "appended c0 c \<Longrightarrow> appended c0 (snd (generate_index_code i c))"
  "appended c0 c \<Longrightarrow> appended c0 (snd (gen_arg a c))"
  "appended c0 c \<Longrightarrow> appended c0 (gen_args as c)"
  by (induction e c and i c and a c and as c arbitrary: c0 and c0 and c0 and c0 rule: gen_expr_induct)
    (simp_all add: split_beta Let_def split: option.splits)


lemma gen_expr_cache_kept:
  "\<not> force_fresh_load c \<Longrightarrow> symbol_to_temp c x = Some t \<Longrightarrow> x \<notin> overwrites e \<Longrightarrow>
     symbol_to_temp (snd (gen_expr e c)) x = Some t"
  "\<not> force_fresh_load c \<Longrightarrow> symbol_to_temp c x = Some t \<Longrightarrow> x \<notin> overwrites_index i \<Longrightarrow>
     symbol_to_temp (snd (generate_index_code i c)) x = Some t"
  "\<not> force_fresh_load c \<Longrightarrow> symbol_to_temp c x = Some t \<Longrightarrow> x \<notin> overwrites_arg a \<Longrightarrow>
     symbol_to_temp (snd (gen_arg a c)) x = Some t"
  "\<not> force_fresh_load c \<Longrightarrow> symbol_to_temp c x = Some t \<Longrightarrow> x \<notin> overwrites_args as \<Longrightarrow>
     symbol_to_temp (gen_args as c) x = Some t"
  by (induction e c and i c and a c and as c rule: gen_expr_induct)
    (auto simp: split_beta Let_def new_temp_def emit_def split: option.splits if_splits)

lemma gen_expr_cache_frame:
  "y \<notin> cache_writes e \<Longrightarrow> symbol_to_temp (snd (gen_expr e c)) y = symbol_to_temp c y"
  "y \<notin> cache_writes_index i \<Longrightarrow> symbol_to_temp (snd (generate_index_code i c)) y = symbol_to_temp c y"
  "y \<notin> cache_writes_arg a \<Longrightarrow> symbol_to_temp (snd (gen_arg a c)) y = symbol_to_temp c y"
  "y \<notin> cache_writes_args as \<Longrightarrow> symbol_to_temp (gen_args as c) y = symbol_to_temp c y"
  by (induction e c and i c and a c and as c rule: gen_expr_induct)
    (auto simp: split_beta Let_def new_temp_def emit_def split: option.splits if_splits)

subsection \<open>The intermediate contexts of statements\<close>

lemma new_label_eq: "new_label c = (label_name (label_count c), c\<lparr>label_count := label_count c + 1\<rparr>)"
  by (simp add: new_label_def label_name_def)

lemma emit_fields [simp]:
  "outcode (emit i c) = outcode c @ [i]"
  "symbol_to_temp (emit i c) = symbol_to_temp c"
  "temp_count (emit i c) = temp_count c"
  "label_count (emit i c) = label_count c"
  "force_fresh_load (emit i c) = force_fresh_load c"
  "last_access (emit i c) = last_access c"
  by (simp_all add: emit_def)

lemma emit_update_commute [simp]:
  "emit i (c\<lparr>label_count := n\<rparr>) = (emit i c)\<lparr>label_count := n\<rparr>"
  by (simp add: emit_def)

lemma gen_stmt_If:
  "gen_stmt (IfNode condition then_block else_block) c =
     emit (ILabel (label_name (label_count c + 2)))
       (gen_stmt_opt else_block (if_else_entry condition then_block c))"
  by (simp add: if_else_entry_def if_then_entry_def split_beta Let_def new_label_eq add.commute)

lemma gen_stmt_While:
  "gen_stmt (WhileNode condition body) c =
     emit (ILabel (label_name (label_count c + 2)))
       (emit (IGoto (label_name (label_count c)))
          (gen_stmt_opt body (while_body_entry condition c)))"
  by (simp add: while_body_entry_def while_cond_entry_def split_beta Let_def new_label_eq add.commute)

lemma gen_stmt_For:
  "gen_stmt (ForNode init condition update body) c =
     (let k = label_count (for_init init c);
          c9 = gen_stmt_opt body (for_body_entry init condition c);
          c10 = (case update of None \<Rightarrow> c9 | Some u \<Rightarrow> snd (gen_expr u c9))
      in emit (ILabel (label_name (k + 2))) (emit (IGoto (label_name k)) c10))"
  by (simp add: for_body_entry_def for_cond_entry_def split_beta Let_def new_label_eq add.commute
      split: option.splits)

lemma gen_node_FuncDecl:
  "gen_node (FuncDeclNode return_type name params body) c =
     emit IBlank (case body of None \<Rightarrow> func_body_entry return_type name params c
                  | Some b \<Rightarrow> gen_stmt (BlockNode b) (func_body_entry return_type name params c))"
  by (simp add: func_body_entry_def Let_def split: option.splits)

text \<open>
  The induction rule of \<open>gen_stmt\<close> with the contexts of the recursive calls given by
  the intermediate contexts.
\<close>

lemma gen_stmt_induct [case_names ExprNone ExprSome Block If While For ReturnNone ReturnSome Decl
    StmtsNil StmtsCons OptNone OptSome InitNone InitStmt InitExpr InitFuncDecl InitArgs InitProgram
    CondNone CondStmt CondExpr CondFuncDecl CondArgs CondProgram
    NodeStmt NodeExpr NodeFuncDecl NodeArgs NodeProgram NodesNil NodesCons]:
  fixes P1 :: "stmt \<Rightarrow> ctx \<Rightarrow> bool" and P2 :: "stmt list \<Rightarrow> ctx \<Rightarrow> bool"
    and P3 :: "stmt option \<Rightarrow> ctx \<Rightarrow> bool" and P4 :: "node option \<Rightarrow> ctx \<Rightarrow> bool"
    and P5 :: "node option \<Rightarrow> ctx \<Rightarrow> bool" and P6 :: "node \<Rightarrow> ctx \<Rightarrow> bool"
    and P7 :: "node list \<Rightarrow> ctx \<Rightarrow> bool"
  assumes ExprNone: "\<And>c. P1 (ExprStmtNode None) c"
    and ExprSome: "\<And>e c. P1 (ExprStmtNode (Some e)) c"
    and Block: "\<And>statements c. P2 statements c \<Longrightarrow> P1 (BlockNode statements) c"
    and If: "\<And>condition then_block else_block c.
               P3 then_block (if_then_entry condition c) \<Longrightarrow>
               P3 else_block (if_else_entry condition then_block c) \<Longrightarrow>
               P1 (IfNode condition then_block else_block) c"
    and While: "\<And>condition body c.
               P3 body (while_body_entry condition c) \<Longrightarrow> P1 (WhileNode condition body) c"
    and For: "\<And>init condition update body c.
               P4 init c \<Longrightarrow> P5 condition (for_cond_entry init c) \<Longrightarrow>
               P3 body (for_body_entry init condition c) \<Longrightarrow>
               P1 (ForNode init condition update body) c"
    and ReturnNone: "\<And>c. P1 (ReturnNode None) c"
    and ReturnSome: "\<And>e c. P1 (ReturnNode (Some e)) c"
    and Decl: "\<And>ty vars c. P1 (DeclNode ty vars) c"
    and StmtsNil: "\<And>c. P2 [] c"
    and StmtsCons: "\<And>s ss c. P1 s c \<Longrightarrow> P2 ss (gen_stmt s c) \<Longrightarrow> P2 (s # ss) c"
    and OptNone: "\<And>c. P3 None c"
    and OptSome: "\<And>s c. P1 s c \<Longrightarrow> P3 (Some s) c"
    and InitNone: "\<And>c. P4 None c"
    and InitStmt: "\<And>s c. P1 s c \<Longrightarrow> P4 (Some (Stmt s)) c"
    and InitExpr: "\<And>e c. P4 (Some (Expr e)) c"
    and InitFuncDecl: "\<And>return_type name params body c. P4 (Some (FuncDeclNode return_type name params body)) c"
    and InitArgs: "\<And>args c. P4 (Some (ArgumentsNode args)) c"
    and InitProgram: "\<And>units c. P4 (Some (ProgramNode units)) c"
    and CondNone: "\<And>c. P5 None c"
    and CondStmt: "\<And>s c. P1 s (c\<lparr>last_access := Map.empty, force_fresh_load := True\<rparr>) \<Longrightarrow>
               P5 (Some (Stmt s)) c"
    and CondExpr: "\<And>e c. P5 (Some (Expr e)) c"
    and CondFuncDecl: "\<And>return_type name params body c. P5 (Some (FuncDeclNode return_type name params body)) c"
    and CondArgs: "\<And>args c. P5 (Some (ArgumentsNode args)) c"
    and CondProgram: "\<And>units c. P5 (Some (ProgramNode units)) c"
    and NodeStmt: "\<And>s c. P1 s c \<Longrightarrow> P6 (Stmt s) c"
    and NodeExpr: "\<And>e c. P6 (Expr e) c"
    and NodeFuncDecl: "\<And>return_type name params body c.
               (\<And>b. body = Some b \<Longrightarrow> P1 (BlockNode b) (func_body_entry return_type name params c)) \<Longrightarrow>
               P6 (FuncDeclNode return_type name params body) c"
    and NodeArgs: "\<And>args c. P6 (ArgumentsNode args) c"
    and NodeProgram: "\<And>units c. P7 units c \<Longrightarrow> P6 (ProgramNode units) c"
    and NodesNil: "\<And>c. P7 [] c"
    and NodesCons: "\<And>u us c. P6 u c \<Longrightarrow> P7 us (gen_node u c) \<Longrightarrow> P7 (u # us) c"
  shows "P1 s c" and "P2 ss c" and "P3 so c" and "P4 i c" and "P5 cn c" and "P6 n c" and "P7 ns c"
proof (induction s c and ss c and so c and i c and cn c and n c and ns c
    rule: gen_stmt_gen_stmts_gen_stmt_opt_for_init_for_cond_gen_node_gen_nodes.induct)
  case (4 condition then_block else_block c)
  show ?case
  proof (rule If)
    from "4.IH"(1) [OF refl prod.collapse refl prod.collapse refl prod.collapse refl prod.collapse
        refl refl refl]
    show "P3 then_block (if_then_entry condition c)"
      by (simp add: if_then_entry_def split_beta Let_def new_label_eq add.commute)
    from "4.IH"(2) [OF refl prod.collapse refl prod.collapse refl prod.collapse refl prod.collapse
        refl refl refl refl refl refl]
    show "P3 else_block (if_else_entry condition then_block c)"
      by (simp add: if_else_entry_def if_then_entry_def split_beta Let_def new_label_eq add.commute)
  qed
next
  case (5 condition body c)
  show ?case
  proof (rule While)
    from "5.IH" [OF refl prod.collapse refl prod.collapse refl prod.collapse refl refl prod.collapse
        refl refl refl]
    show "P3 body (while_body_entry condition c)"
      by (simp add: while_body_entry_def while_cond_entry_def split_beta Let_def new_label_eq add.commute)
  qed
next
  case (6 init condition update body c)
  show ?case
  proof (rule For)
    show "P4 init c" by (rule "6.IH"(1))
    from "6.IH"(2) [OF refl refl prod.collapse refl prod.collapse refl prod.collapse refl]
    show "P5 condition (for_cond_entry init c)"
      by (simp add: for_cond_entry_def split_beta Let_def new_label_eq add.commute)
    from "6.IH"(3) [OF refl refl prod.collapse refl prod.collapse refl prod.collapse refl
        refl prod.collapse refl refl refl]
    show "P3 body (for_body_entry init condition c)"
      by (simp add: for_body_entry_def for_cond_entry_def split_beta Let_def new_label_eq add.commute)
  qed
next
  case (19 n c)
  show ?case
  proof (cases n)
    case (Stmt s)
    have "P1 s (c\<lparr>last_access := Map.empty, force_fresh_load := True\<rparr>)"
    proof (cases s)
      case (ExprStmtNode eo)
      then show ?thesis
        by (cases eo) (simp_all add: ExprNone ExprSome)
    next
      case (BlockNode x2)
      with "19.IH"(2) [OF refl refl Stmt] show ?thesis by simp
    next
      case (IfNode x31 x32 x33)
      with "19.IH"(3) [OF refl refl Stmt] show ?thesis by simp
    next
      case (WhileNode x41 x42)
      with "19.IH"(4) [OF refl refl Stmt] show ?thesis by simp
    next
      case (ForNode x51 x52 x53 x54)
      with "19.IH"(5) [OF refl refl Stmt] show ?thesis by simp
    next
      case (ReturnNode x6)
      with "19.IH"(6) [OF refl refl Stmt] show ?thesis by simp
    next
      case (DeclNode x71 x72)
      with "19.IH"(7) [OF refl refl Stmt] show ?thesis by simp
    qed
    with Stmt show ?thesis by (simp add: CondStmt)
  qed (simp_all add: CondExpr CondFuncDecl CondArgs CondProgram)
next
  case (22 return_type name params body c)
  show ?case
  proof (rule NodeFuncDecl)
    fix b assume "body = Some b"
    from "22.IH" [OF refl refl this]
    show "P1 (BlockNode b) (func_body_entry return_type name params c)"
      by (simp add: func_body_entry_def)
  qed
qed (simp_all add: assms)

subsection \<open>Counters and output of statements\<close>

text \<open>
  No statement, function or program decreases a counter, and all of them only append to
  the output.
\<close>

lemma gen_decl_fields [simp]:
  "temp_count (gen_decl ty vars c) = temp_count c"
  "label_count (gen_decl ty vars c) = label_count c"
  "symbol_to_temp (gen_decl ty vars c) = symbol_to_temp c"
  "force_fresh_load (gen_decl ty vars c) = force_fresh_load c"
  "last_access (gen_decl ty vars c) = last_access c"
  "labels_of (outcode (gen_decl ty vars c)) = labels_of (outcode c)"
  unfolding gen_decl_def by (induction vars arbitrary: c; simp)+

lemma gen_decl_appended [simp]: "appended c0 c \<Longrightarrow> appended c0 (gen_decl ty vars c)"
  unfolding gen_decl_def by (induction vars arbitrary: c) simp_all

lemmas entry_defs = if_then_entry_def if_else_entry_def while_body_entry_def while_cond_entry_def
  for_cond_entry_def for_body_entry_def func_body_entry_def

declare gen_stmt.simps(4,5,6) [simp del]
declare gen_node.simps(3) [simp del]
declare gen_stmt_If [simp] gen_stmt_While [simp] gen_stmt_For [simp] gen_node_FuncDecl [simp]

lemma entry_label_count [simp]:
  "label_count (if_then_entry condition c) = label_count c + 3"
  "label_count (if_else_entry condition then_block c) =
     label_count (gen_stmt_opt then_block (if_then_entry condition c))"
  "label_count (while_cond_entry c) = label_count c + 3"
  "label_count (while_body_entry condition c) = label_count c + 3"
  "label_count (for_cond_entry init c) = label_count (for_init init c) + 3"
  "label_count (for_body_entry init cn c) = label_count (snd (for_cond cn (for_cond_entry init c)))"
  "label_count (func_body_entry return_type name params c) = label_count c"
  by (simp_all add: entry_defs split_beta Let_def)

lemma entry_temp_count [simp]:
  "temp_count (if_then_entry condition c) = temp_count (snd (gen_expr condition c))"
  "temp_count (if_else_entry condition then_block c) =
     temp_count (gen_stmt_opt then_block (if_then_entry condition c))"
  "temp_count (while_cond_entry c) = temp_count c"
  "temp_count (while_body_entry condition c) = temp_count (snd (gen_expr condition (while_cond_entry c)))"
  "temp_count (for_cond_entry init c) = temp_count (for_init init c)"
  "temp_count (for_body_entry init cn c) = temp_count (snd (for_cond cn (for_cond_entry init c)))"
  "temp_count (func_body_entry return_type name params c) = temp_count c"
  by (simp_all add: entry_defs split_beta Let_def)

lemma gen_expr_temp_count_mono:
  "k \<le> temp_count c \<Longrightarrow> k \<le> temp_count (snd (gen_expr e c))"
  by (simp add: gen_expr_temp_count)

lemma gen_stmt_temp_count_mono:
  "k \<le> temp_count c \<Longrightarrow> k \<le> temp_count (gen_stmt s c)"
  "k \<le> temp_count c \<Longrightarrow> k \<le> temp_count (gen_stmts ss c)"
  "k \<le> temp_count c \<Longrightarrow> k \<le> temp_count (gen_stmt_opt so c)"
  "k \<le> temp_count c \<Longrightarrow> k \<le> temp_count (for_init i c)"
  "k \<le> temp_count c \<Longrightarrow> k \<le> temp_count (snd (for_cond cn c))"
  "k \<le> temp_count c \<Longrightarrow> k \<le> temp_count (gen_node n c)"
  "k \<le> temp_count c \<Longrightarrow> k \<le> temp_count (gen_nodes ns c)"
proof (induction s c and ss c and so c and i c and cn c and n c and ns c
    arbitrary: k and k and k and k and k and k and k rule: gen_stmt_induct)
  case (CondStmt s c)
  then show ?case by (cases s; simp add: Let_def split_beta gen_expr_temp_count_mono split: option.splits)
qed (simp_all add: split_beta Let_def gen_expr_temp_count_mono split: option.splits)

lemma gen_stmt_label_count_mono:
  "k \<le> label_count c \<Longrightarrow> k \<le> label_count (gen_stmt s c)"
  "k \<le> label_count c \<Longrightarrow> k \<le> label_count (gen_stmts ss c)"
  "k \<le> label_count c \<Longrightarrow> k \<le> label_count (gen_stmt_opt so c)"
  "k \<le> label_count c \<Longrightarrow> k \<le> label_count (for_init i c)"
  "k \<le> label_count c \<Longrightarrow> k \<le> label_count (snd (for_cond cn c))"
  "k \<le> label_count c \<Longrightarrow> k \<le> label_count (gen_node n c)"
  "k \<le> label_count c \<Longrightarrow> k \<le> label_count (gen_nodes ns c)"
proof (induction s c and ss c and so c and i c and cn c and n c and ns c
    arbitrary: k and k and k and k and k and k and k rule: gen_stmt_induct)
  case (If condition then_block else_block c)
  from If.prems have "k \<le> label_count (if_then_entry condition c)" by simp
  then have "k \<le> label_count (if_else_entry condition then_block c)" by (simp add: If.IH(1))
  then show ?case by (simp add: gen_stmt_If If.IH(2))
next
  case (While condition body c)
  from While.prems have "k \<le> label_count (while_body_entry condition c)" by simp
  then show ?case by (simp add: gen_stmt_While While.IH)
next
  case (For init condition update body c)
  from For.prems have "k \<le> label_count (for_init init c)" by (rule For.IH(1))
  then have "k \<le> label_count (for_cond_entry init c)" by simp
  then have "k \<le> label_count (for_body_entry init condition c)" by (simp add: For.IH(2))
  then show ?case by (simp add: gen_stmt_For Let_def For.IH(3) split: option.splits)
next
  case (CondStmt s c)
  then show ?case by (cases s; simp add: Let_def split_beta split: option.splits)
qed (simp_all add: split_beta Let_def split: option.splits)

lemma entry_appended [simp]:
  "appended c0 c \<Longrightarrow> appended c0 (if_then_entry condition c)"
  "appended c0 (gen_stmt_opt then_block (if_then_entry condition c)) \<Longrightarrow>
     appended c0 (if_else_entry condition then_block c)"
  "appended c0 c \<Longrightarrow> appended c0 (while_cond_entry c)"
  "appended c0 c \<Longrightarrow> appended c0 (while_body_entry condition c)"
  "appended c0 (for_init init c) \<Longrightarrow> appended c0 (for_cond_entry init c)"
  "appended c0 (snd (for_cond cn (for_cond_entry init c))) \<Longrightarrow> appended c0 (for_body_entry init cn c)"
  "appended c0 c \<Longrightarrow> appended c0 (func_body_entry return_type name params c)"
  by (simp_all add: entry_defs split_beta Let_def)

lemma gen_stmt_appended [simp]:
  "appended c0 c \<Longrightarrow> appended c0 (gen_stmt s c)"
  "appended c0 c \<Longrightarrow> appended c0 (gen_stmts ss c)"
  "appended c0 c \<Longrightarrow> appended c0 (gen_stmt_opt so c)"
  "appended c0 c \<Longrightarrow> appended c0 (for_init i c)"
  "appended c0 c \<Longrightarrow> appended c0 (snd (for_cond cn c))"
  "appended c0 c \<Longrightarrow> appended c0 (gen_node n c)"
  "appended c0 c \<Longrightarrow> appended c0 (gen_nodes ns c)"
proof (induction s c and ss c and so c and i c and cn c and n c and ns c
    arbitrary: c0 and c0 and c0 and c0 and c0 and c0 and c0 rule: gen_stmt_induct)
  case (CondStmt s c)
  then show ?case by (cases s; simp add: Let_def split_beta split: option.splits)
qed (simp_all add: split_beta Let_def split: option.splits)

subsection \<open>The labels a translation defines\<close>

text \<open>
  Between two contexts every translation defines exactly the labels numbered from the
  label counter of the first to that of the second, each once (\<open>gen_stmt_labels\<close>).
\<close>

lemma label_name_inj [simp]: "label_name a = label_name b \<longleftrightarrow> a = b"
  by (auto simp: label_name_def dest: to_string_inj)

lemma labels_added_cong:
  "outcode c1 = outcode c2 \<Longrightarrow> outcode c1' = outcode c2' \<Longrightarrow>
     labels_added c1 c1' A = labels_added c2 c2' A"
  by (simp add: labels_added_def appended_def emitted_def)

lemma labels_added_refl [simp]: "labels_added c c {}"
  by (simp add: labels_added_def emitted_def)

lemma labels_added_trans:
  assumes "labels_added a b A" and "labels_added b c B" and "A \<inter> B = {}"
  shows "labels_added a c (A \<union> B)"
proof -
  from assms have ab: "appended a b" and bc: "appended b c"
    by (simp_all add: labels_added_def)
  have "emitted a c = emitted a b @ emitted b c" by (rule emitted_trans [OF ab bc])
  moreover have "label_name ` A \<inter> label_name ` B = {}"
    using assms(3) by auto
  ultimately show ?thesis
    using assms(1,2) appended_trans [OF ab bc]
    by (simp add: labels_added_def image_Un)
qed

lemma labels_added_silent:
  assumes "labels_added c0 c A" and "appended c c'" and "labels_of (outcode c') = labels_of (outcode c)"
  shows "labels_added c0 c' A"
proof -
  from assms(2) have "outcode c' = outcode c @ emitted c c'" by (simp add: appended_def)
  then have "labels_of (outcode c') = labels_of (outcode c) @ labels_of (emitted c c')"
    by (metis labels_of_simps(2))
  with assms(3) have "labels_of (emitted c c') = []" by simp
  with assms(2) have "labels_added c c' {}" by (simp add: labels_added_def)
  from labels_added_trans [OF assms(1) this] show ?thesis by simp
qed

lemma labels_added_emit:
  assumes "labels_added c0 c A" and "label_of i = []"
  shows "labels_added c0 (emit i c) A"
  by (rule labels_added_silent [OF assms(1)]) (simp_all add: assms(2))

lemma labels_added_emit_label:
  assumes "labels_added c0 c A" and "k \<notin> A"
  shows "labels_added c0 (emit (ILabel (label_name k)) c) (insert k A)"
proof -
  have "emitted c (emit (ILabel (label_name k)) c) = [ILabel (label_name k)]"
    by (simp add: emitted_def)
  then have "labels_added c (emit (ILabel (label_name k)) c) {k}"
    by (simp add: labels_added_def)
  from labels_added_trans [OF assms(1) this] assms(2) show ?thesis by simp
qed

lemma labels_added_expr:
  "labels_added c0 c A \<Longrightarrow> labels_added c0 (snd (gen_expr e c)) A"
  by (erule labels_added_silent) simp_all

lemma labels_added_decl:
  "labels_added c0 c A \<Longrightarrow> labels_added c0 (gen_decl ty vars c) A"
  by (erule labels_added_silent) simp_all

lemma labels_added_same:
  "labels_added c0 c A \<Longrightarrow> outcode c' = outcode c \<Longrightarrow> labels_added c0 c' A"
  by (simp add: labels_added_cong [of c0 c0 c' c])

lemma labels_added_seq:
  assumes "labels_added a b {la..<lb}" and "labels_added b c {lb..<lc}" and "la \<le> lb" and "lb \<le> lc"
  shows "labels_added a c {la..<lc}"
proof -
  have "{la..<lb} \<inter> {lb..<lc} = {}" by auto
  from labels_added_trans [OF assms(1,2) this] assms(3,4) show ?thesis
    by (simp add: ivl_disj_un_two(3))
qed

lemma outcode_entries [simp]:
  "outcode (func_body_entry return_type name params c) = outcode c @ [IFuncHeader return_type name params]"
  "outcode (while_cond_entry c) = outcode c @ [ILabel (label_name (label_count c))]"
  "outcode (for_cond_entry init c) =
     outcode (for_init init c) @ [ILabel (label_name (label_count (for_init init c)))]"
  by (simp_all add: entry_defs Let_def)

lemma gen_stmt_labels:
  "labels_added c (gen_stmt s c) {label_count c ..< label_count (gen_stmt s c)}"
  "labels_added c (gen_stmts ss c) {label_count c ..< label_count (gen_stmts ss c)}"
  "labels_added c (gen_stmt_opt so c) {label_count c ..< label_count (gen_stmt_opt so c)}"
  "labels_added c (for_init i c) {label_count c ..< label_count (for_init i c)}"
  "labels_added c (snd (for_cond cn c)) {label_count c ..< label_count (snd (for_cond cn c))}"
  "labels_added c (gen_node n c) {label_count c ..< label_count (gen_node n c)}"
  "labels_added c (gen_nodes ns c) {label_count c ..< label_count (gen_nodes ns c)}"
proof (induction s c and ss c and so c and i c and cn c and n c and ns c rule: gen_stmt_induct)
  case (ExprSome e c)
  show ?case using labels_added_expr [OF labels_added_refl, of c e] by simp
next
  case (If condition then_block else_block c)
  define k where "k = label_count c"
  define X where "X = if_then_entry condition c"
  define T where "T = gen_stmt_opt then_block X"
  define Y where "Y = if_else_entry condition then_block c"
  define E where "E = gen_stmt_opt else_block Y"
  have lX: "label_count X = k + 3" by (simp add: X_def k_def)
  have lY: "label_count Y = label_count T" by (simp add: Y_def T_def X_def)
  have kT: "k + 3 \<le> label_count T"
    unfolding T_def by (rule gen_stmt_label_count_mono) (simp add: lX)
  have TE: "label_count T \<le> label_count E"
    unfolding E_def by (rule gen_stmt_label_count_mono) (simp add: lY)
  have 1: "labels_added c X {k}"
  proof -
    have a: "labels_added c (snd (gen_expr condition c)) {}"
      by (rule labels_added_expr) simp
    have b: "labels_added c ((snd (gen_expr condition c))\<lparr>label_count := k + 3\<rparr>) {}"
      by (rule labels_added_same [OF a]) simp
    have "labels_added c (emit (ILabel (label_name k)) (emit (IGoto (label_name (k + 1)))
        (emit (IIfGoto (fst (gen_expr condition c)) (label_name k))
          ((snd (gen_expr condition c))\<lparr>label_count := k + 3\<rparr>)))) (insert k {})"
      by (rule labels_added_emit_label, rule labels_added_emit, rule labels_added_emit, rule b) simp_all
    then show ?thesis by (simp add: X_def if_then_entry_def split_beta Let_def k_def)
  qed
  have 2: "labels_added X T {k + 3..<label_count T}"
    using If.IH(1) by (simp add: X_def T_def k_def)
  have 3: "labels_added c T ({k} \<union> {k + 3..<label_count T})"
    by (rule labels_added_trans [OF 1 2]) simp
  have 4: "labels_added c Y (insert (k + 1) ({k} \<union> {k + 3..<label_count T}))"
  proof -
    have "labels_added c (emit (ILabel (label_name (k + 1))) (emit (IGoto (label_name (k + 2))) T))
        (insert (k + 1) ({k} \<union> {k + 3..<label_count T}))"
      by (rule labels_added_emit_label, rule labels_added_emit, rule 3) simp_all
    then show ?thesis by (simp add: Y_def if_else_entry_def Let_def T_def X_def k_def)
  qed
  have 5: "labels_added Y E {label_count T..<label_count E}"
    using If.IH(2) by (simp add: Y_def E_def T_def X_def)
  have 6: "labels_added c E (insert (k + 1) ({k} \<union> {k + 3..<label_count T}) \<union> {label_count T..<label_count E})"
    by (rule labels_added_trans [OF 4 5]) (use kT in auto)
  have 7: "labels_added c (emit (ILabel (label_name (k + 2))) E)
      (insert (k + 2) (insert (k + 1) ({k} \<union> {k + 3..<label_count T}) \<union> {label_count T..<label_count E}))"
    by (rule labels_added_emit_label [OF 6]) (use kT in auto)
  have "insert (k + 2) (insert (k + 1) ({k} \<union> {k + 3..<label_count T}) \<union> {label_count T..<label_count E})
      = {k..<label_count E}"
    using kT TE by auto
  with 7 show ?case by (simp add: E_def Y_def k_def)
next
  case (While condition body c)
  define k where "k = label_count c"
  define X where "X = while_body_entry condition c"
  define B where "B = gen_stmt_opt body X"
  have lX: "label_count X = k + 3" by (simp add: X_def k_def)
  have kB: "k + 3 \<le> label_count B"
    unfolding B_def by (rule gen_stmt_label_count_mono) (simp add: lX)
  have 0: "labels_added c (while_cond_entry c) {k}"
  proof -
    have a: "labels_added c (c\<lparr>label_count := k + 3\<rparr>) {}"
      by (rule labels_added_same [OF labels_added_refl]) simp
    have "labels_added c (emit (ILabel (label_name k)) (c\<lparr>label_count := k + 3\<rparr>)) (insert k {})"
      by (rule labels_added_emit_label, rule a) simp
    then show ?thesis by (simp add: while_cond_entry_def Let_def k_def)
  qed
  define W where "W = gen_expr condition (while_cond_entry c)"
  have 1: "labels_added c X (insert (k + 1) {k})"
  proof -
    have a: "labels_added c (snd W) {k}"
      unfolding W_def by (rule labels_added_expr) (rule 0)
    have "labels_added c (emit (ILabel (label_name (k + 1))) (emit (IGoto (label_name (k + 2)))
        (emit (IIfGoto (fst W) (label_name (k + 1))) (snd W)))) (insert (k + 1) {k})"
      by (rule labels_added_emit_label, rule labels_added_emit, rule labels_added_emit, rule a) simp_all
    then show ?thesis by (simp add: X_def while_body_entry_def split_beta Let_def k_def W_def)
  qed
  have 2: "labels_added X B {k + 3..<label_count B}"
    using While.IH by (simp add: X_def B_def k_def)
  have 3: "labels_added c B (insert (k + 1) {k} \<union> {k + 3..<label_count B})"
    by (rule labels_added_trans [OF 1 2]) simp
  have 4: "labels_added c (emit (ILabel (label_name (k + 2))) (emit (IGoto (label_name k)) B))
      (insert (k + 2) (insert (k + 1) {k} \<union> {k + 3..<label_count B}))"
    by (rule labels_added_emit_label [OF labels_added_emit [OF 3]]) simp_all
  have "insert (k + 2) (insert (k + 1) {k} \<union> {k + 3..<label_count B}) = {k..<label_count B}"
    using kB by auto
  with 4 show ?case by (simp add: B_def X_def k_def)
next
  case (For init condition update body c)
  define I where "I = for_init init c"
  define k where "k = label_count I"
  define F where "F = for_cond_entry init c"
  define C where "C = snd (for_cond condition F)"
  define X where "X = for_body_entry init condition c"
  define B where "B = gen_stmt_opt body X"
  define U where "U = (case update of None \<Rightarrow> B | Some u \<Rightarrow> snd (gen_expr u B))"
  have cI: "label_count c \<le> k" unfolding k_def I_def by (rule gen_stmt_label_count_mono) simp
  have lF: "label_count F = k + 3" by (simp add: F_def k_def I_def)
  have kC: "k + 3 \<le> label_count C"
    unfolding C_def by (rule gen_stmt_label_count_mono) (simp add: lF)
  have lX: "label_count X = label_count C" by (simp add: X_def C_def F_def)
  have CB: "label_count C \<le> label_count B"
    unfolding B_def by (rule gen_stmt_label_count_mono) (simp add: lX)
  have lU: "label_count U = label_count B" by (simp add: U_def split: option.splits)
  have 1: "labels_added c I {label_count c..<k}"
    using For.IH(1) by (simp add: I_def k_def)
  have 2: "labels_added c F (insert k {label_count c..<k})"
  proof -
    have a: "labels_added c (I\<lparr>label_count := k + 3\<rparr>) {label_count c..<k}"
      by (rule labels_added_same [OF 1]) simp
    have "labels_added c (emit (ILabel (label_name k)) (I\<lparr>label_count := k + 3\<rparr>))
        (insert k {label_count c..<k})"
      by (rule labels_added_emit_label, rule a) simp
    then show ?thesis by (simp add: F_def for_cond_entry_def Let_def I_def k_def)
  qed
  have 3: "labels_added F C {k + 3..<label_count C}"
    using For.IH(2) by (simp add: F_def C_def k_def I_def)
  have 4: "labels_added c C (insert k {label_count c..<k} \<union> {k + 3..<label_count C})"
    by (rule labels_added_trans [OF 2 3]) auto
  have 5: "labels_added c X (insert (k + 1) (insert k {label_count c..<k} \<union> {k + 3..<label_count C}))"
  proof -
    have "labels_added c (emit (ILabel (label_name (k + 1))) (emit (IGoto (label_name (k + 2)))
        (emit (IIfGoto (fst (for_cond condition F)) (label_name (k + 1))) C)))
        (insert (k + 1) (insert k {label_count c..<k} \<union> {k + 3..<label_count C}))"
      by (rule labels_added_emit_label, rule labels_added_emit, rule labels_added_emit, rule 4)
        (use kC in auto)
    then show ?thesis
      by (simp add: X_def for_body_entry_def split_beta Let_def C_def F_def k_def I_def)
  qed
  have 6: "labels_added X B {label_count C..<label_count B}"
    using For.IH(3) by (simp add: X_def B_def C_def F_def)
  have 7: "labels_added c B (insert (k + 1) (insert k {label_count c..<k} \<union> {k + 3..<label_count C})
      \<union> {label_count C..<label_count B})"
    by (rule labels_added_trans [OF 5 6]) (use kC in auto)
  have 8: "labels_added c U (insert (k + 1) (insert k {label_count c..<k} \<union> {k + 3..<label_count C})
      \<union> {label_count C..<label_count B})"
    unfolding U_def using 7 by (auto split: option.splits intro: labels_added_expr)
  have 9: "labels_added c (emit (ILabel (label_name (k + 2))) (emit (IGoto (label_name k)) U))
      (insert (k + 2) (insert (k + 1) (insert k {label_count c..<k} \<union> {k + 3..<label_count C})
      \<union> {label_count C..<label_count B}))"
    by (rule labels_added_emit_label [OF labels_added_emit [OF 8]]) (use kC in auto)
  have "insert (k + 2) (insert (k + 1) (insert k {label_count c..<k} \<union> {k + 3..<label_count C})
      \<union> {label_count C..<label_count B}) = {label_count c..<label_count B}"
    using cI kC CB by auto
  with 9 have "labels_added c (emit (ILabel (label_name (k + 2))) (emit (IGoto (label_name k)) U))
      {label_count c..<label_count U}" by (simp add: lU)
  then show ?case
    by (simp add: U_def B_def X_def k_def I_def Let_def split: option.splits)
next
  case (ReturnNone c)
  show ?case using labels_added_emit [OF labels_added_refl, of IReturn c] by simp
next
  case (ReturnSome e c)
  show ?case
    using labels_added_emit [OF labels_added_expr [OF labels_added_refl, of c e], of "IReturnVal (fst (gen_expr e c))"]
    by (simp add: split_beta)
next
  case (Decl ty vars c)
  show ?case using labels_added_decl [OF labels_added_refl, of c ty vars] by simp
next
  case (StmtsCons s ss c)
  have "labels_added c (gen_stmts ss (gen_stmt s c)) {label_count c..<label_count (gen_stmts ss (gen_stmt s c))}"
    by (rule labels_added_seq [OF StmtsCons.IH]) (simp_all add: gen_stmt_label_count_mono)
  then show ?case by simp
next
  case (InitExpr e c)
  show ?case using labels_added_expr [OF labels_added_refl, of c e] by simp
next
  case (CondStmt s c)
  define c2 where "c2 = c\<lparr>last_access := Map.empty, force_fresh_load := True\<rparr>"
  have r: "snd (for_cond (Some (Stmt s)) c) =
      (gen_stmt s c2)\<lparr>force_fresh_load := False, symbol_to_temp := last_access (gen_stmt s c2)\<rparr>"
    by (cases s; simp add: c2_def Let_def split_beta split: option.splits)
  from CondStmt.IH have "labels_added c (gen_stmt s c2) {label_count c..<label_count (gen_stmt s c2)}"
    by (simp add: c2_def labels_added_cong [of "c\<lparr>last_access := Map.empty, force_fresh_load := True\<rparr>" c])
  then show ?case unfolding r
    by (simp add: labels_added_cong [of c c "(gen_stmt s c2)\<lparr>force_fresh_load := False, symbol_to_temp := last_access (gen_stmt s c2)\<rparr>" "gen_stmt s c2"])
next
  case (CondExpr e c)
  have "labels_added c (snd (gen_expr e (c\<lparr>last_access := Map.empty, force_fresh_load := True\<rparr>))) {}"
    by (rule labels_added_expr) (simp add: labels_added_cong [of c c "c\<lparr>last_access := Map.empty, force_fresh_load := True\<rparr>" c])
  then show ?case
    by (simp add: Let_def split_beta labels_added_cong [of c c "_\<lparr>force_fresh_load := False, symbol_to_temp := _\<rparr>" "snd (gen_expr e (c\<lparr>last_access := Map.empty, force_fresh_load := True\<rparr>))"])
next
  case (NodeExpr e c)
  show ?case using labels_added_expr [OF labels_added_refl, of c e] by simp
next
  case (NodeFuncDecl return_type name params body c)
  define X where "X = func_body_entry return_type name params c"
  have 1: "labels_added c X {}"
    by (rule labels_added_silent [OF labels_added_refl]) (simp_all add: X_def)
  show ?case
  proof (cases body)
    case None
    with labels_added_emit [OF 1, of IBlank] show ?thesis by (simp add: X_def)
  next
    case (Some b)
    have "labels_added X (gen_stmt (BlockNode b) X) {label_count c..<label_count (gen_stmt (BlockNode b) X)}"
      using NodeFuncDecl.IH [OF Some] by (simp add: X_def)
    from labels_added_trans [OF 1 this] have "labels_added c (gen_stmt (BlockNode b) X)
        {label_count c..<label_count (gen_stmt (BlockNode b) X)}" by simp
    from labels_added_emit [OF this, of IBlank] Some show ?thesis by (simp add: X_def)
  qed
next
  case (NodesCons u us c)
  have "labels_added c (gen_nodes us (gen_node u c)) {label_count c..<label_count (gen_nodes us (gen_node u c))}"
    by (rule labels_added_seq [OF NodesCons.IH]) (simp_all add: gen_stmt_label_count_mono)
  then show ?case by simp
qed (simp_all add: Let_def labels_added_cong [of c c "_\<lparr>force_fresh_load := False, symbol_to_temp := _\<rparr>" c for c])

subsection \<open>Parameter lines, and the header of a for loop\<close>

lemma params_of_simps [simp]:
  "params_of [] = []"
  "params_of (xs @ ys) = params_of xs @ params_of ys"
  "params_of (i # xs) = param_of i @ params_of xs"
  by (simp_all add: params_of_def)

lemma gen_expr_params:
  "length (params_of (outcode (snd (gen_expr e c)))) = length (params_of (outcode c)) + call_args e"
  "length (params_of (outcode (snd (generate_index_code i c)))) =
     length (params_of (outcode c)) + call_args_index i"
  "length (params_of (outcode (snd (gen_arg a c)))) = length (params_of (outcode c)) + call_args a"
  "length (params_of (outcode (gen_args as c))) =
     length (params_of (outcode c)) + length as + call_args_list as"
  by (induction e c and i c and a c and as c rule: gen_expr_induct)
    (simp_all add: split_beta Let_def new_temp_def split: option.splits)

lemma emitted_params:
  assumes "appended c c'"
  shows "length (params_of (emitted c c')) =
    length (params_of (outcode c')) - length (params_of (outcode c))"
proof -
  from assms have "outcode c' = outcode c @ emitted c c'" by (simp add: appended_def)
  then have "params_of (outcode c') = params_of (outcode c) @ params_of (emitted c c')"
    by (metis params_of_simps(2))
  then show ?thesis by simp
qed



subsection \<open>Statements that keep a cache entry\<close>

lemma entry_force_fresh [simp]:
  "force_fresh_load (if_then_entry condition c) = force_fresh_load c"
  "force_fresh_load (if_else_entry condition then_block c) =
     force_fresh_load (gen_stmt_opt then_block (if_then_entry condition c))"
  "force_fresh_load (while_cond_entry c) = force_fresh_load c"
  "force_fresh_load (while_body_entry condition c) = force_fresh_load c"
  "force_fresh_load (for_cond_entry init c) = force_fresh_load (for_init init c)"
  "force_fresh_load (for_body_entry init None c) = force_fresh_load (for_init init c)"
  by (simp_all add: entry_defs split_beta Let_def)

lemma entry_cache [simp]:
  "symbol_to_temp (if_then_entry condition c) = symbol_to_temp (snd (gen_expr condition c))"
  "symbol_to_temp (if_else_entry condition then_block c) =
     symbol_to_temp (gen_stmt_opt then_block (if_then_entry condition c))"
  "symbol_to_temp (while_cond_entry c) = symbol_to_temp c"
  "symbol_to_temp (while_body_entry condition c) =
     symbol_to_temp (snd (gen_expr condition (while_cond_entry c)))"
  "symbol_to_temp (for_cond_entry init c) = symbol_to_temp (for_init init c)"
  "symbol_to_temp (for_body_entry init None c) = symbol_to_temp (for_init init c)"
  by (simp_all add: entry_defs split_beta Let_def)

lemma gen_stmt_cache_kept:
  "\<not> force_fresh_load c \<Longrightarrow> symbol_to_temp c x = Some t \<Longrightarrow> keeps_cached x s \<Longrightarrow>
     symbol_to_temp (gen_stmt s c) x = Some t \<and> \<not> force_fresh_load (gen_stmt s c)"
  "\<not> force_fresh_load c \<Longrightarrow> symbol_to_temp c x = Some t \<Longrightarrow> keeps_cached_list x ss \<Longrightarrow>
     symbol_to_temp (gen_stmts ss c) x = Some t \<and> \<not> force_fresh_load (gen_stmts ss c)"
  "\<not> force_fresh_load c \<Longrightarrow> symbol_to_temp c x = Some t \<Longrightarrow> keeps_cached_opt x so \<Longrightarrow>
     symbol_to_temp (gen_stmt_opt so c) x = Some t \<and> \<not> force_fresh_load (gen_stmt_opt so c)"
  "\<not> force_fresh_load c \<Longrightarrow> symbol_to_temp c x = Some t \<Longrightarrow> keeps_cached_init x i \<Longrightarrow>
     symbol_to_temp (for_init i c) x = Some t \<and> \<not> force_fresh_load (for_init i c)"
  "for_cond cn c = for_cond cn c"
  "gen_node n c = gen_node n c"
  "gen_nodes ns c = gen_nodes ns c"
proof (induction s c and ss c and so c and i c and cn c and n c and ns c rule: gen_stmt_induct)
  case (If condition then_block else_block c)
  have 1: "symbol_to_temp (if_then_entry condition c) x = Some t"
    "\<not> force_fresh_load (if_then_entry condition c)"
    using If.prems by (simp_all add: gen_expr_cache_kept)
  have 2: "symbol_to_temp (if_else_entry condition then_block c) x = Some t"
    "\<not> force_fresh_load (if_else_entry condition then_block c)"
    using If.IH(1) [OF 1(2,1)] If.prems(3) by simp_all
  from If.IH(2) [OF 2(2,1)] If.prems(3) show ?case by simp
next
  case (While condition body c)
  have 0: "symbol_to_temp (while_cond_entry c) x = Some t" "\<not> force_fresh_load (while_cond_entry c)"
    using While.prems by simp_all
  have 1: "symbol_to_temp (while_body_entry condition c) x = Some t"
    "\<not> force_fresh_load (while_body_entry condition c)"
    using While.prems gen_expr_cache_kept(1) [OF 0(2,1), of condition] by simp_all
  from While.IH [OF 1(2,1)] While.prems(3) show ?case by simp
next
  case (For init condition update body c)
  from For.prems(3) have cn: "condition = None" by simp
  have 0: "symbol_to_temp (for_init init c) x = Some t" "\<not> force_fresh_load (for_init init c)"
    using For.IH(1) [OF For.prems(1,2)] For.prems(3) by simp_all
  have 1: "symbol_to_temp (for_body_entry init condition c) x = Some t"
    "\<not> force_fresh_load (for_body_entry init condition c)"
    using 0 by (simp_all add: cn)
  from For.IH(3) [OF 1(2,1)] For.prems(3)
  have 2: "symbol_to_temp (gen_stmt_opt body (for_body_entry init condition c)) x = Some t"
    "\<not> force_fresh_load (gen_stmt_opt body (for_body_entry init condition c))"
    by simp_all
  show ?case
  proof (cases update)
    case None
    with 2 show ?thesis by (simp add: Let_def)
  next
    case (Some u)
    with For.prems(3) have "x \<notin> overwrites u" by simp
    from gen_expr_cache_kept(1) [OF 2(2,1) this] 2(2) Some show ?thesis by (simp add: Let_def)
  qed
next
  case (ExprNone c)
  then show ?case by simp
next
  case (ExprSome e c)
  then show ?case by (simp add: gen_expr_cache_kept)
next
  case (ReturnSome e c)
  then show ?case by (simp add: split_beta gen_expr_cache_kept)
next
  case (InitExpr e c)
  then show ?case by (simp add: gen_expr_cache_kept)
qed simp_all

section \<open>The claims of the specification\<close>

lemma to_string_small:
  "to_string 0 = ''0''" "to_string 1 = ''1''" "to_string 2 = ''2''" "to_string 3 = ''3''"
  "to_string 4 = ''4''" "to_string 5 = ''5''"
  by (simp_all add: to_string_def digits.simps digit_char_def)

lemma gen_expr_outcode:
  "outcode (snd (gen_expr e c)) = outcode c @ emitted c (snd (gen_expr e c))"
  using gen_expr_appended(1) [OF appended_refl, of c e] by (simp add: appended_def)

subsection \<open>Temporary numbering across functions\<close>

text \<open>
  Claim C1 says that the temporary counter restarts at 0 at every function entry. It does
  not: \<^verbatim>\<open>FuncDeclNode::generate_code\<close> clears \<^verbatim>\<open>symbol_to_temp\<close> and leaves
  \<^verbatim>\<open>temp_count\<close> alone, and no other method assigns to it. In the program of two
  functions \<^verbatim>\<open>int f() { return 1; }\<close> and \<^verbatim>\<open>int g() { return 2; }\<close>, translated
  from counters 0, the first temporary of \<^verbatim>\<open>g\<close> is \<^verbatim>\<open>t1\<close>.
\<close>

theorem temp_reset_counterexample:
  "map render (outcode (gen_node
     (ProgramNode
        [FuncDeclNode ''int'' ''f'' [] (Some [ReturnNode (Some (ConstNode ''1'' ''int''))]),
         FuncDeclNode ''int'' ''g'' [] (Some [ReturnNode (Some (ConstNode ''2'' ''int''))])])
     \<lparr>outcode = [], symbol_to_temp = Map.empty, temp_count = 0, label_count = 0,
      force_fresh_load = False, last_access = Map.empty\<rparr>))
   = [''// Function: int f()'', ''t0 = 1'', ''return t0'', [],
      ''// Function: int g()'', ''t1 = 2'', ''return t1'', []]"
  by (simp add: func_body_entry_def new_temp_def emit_def to_string_small)

text \<open>
  Claim C1 as amended. Translating a function unit does not reset the temporary
  numbering: the body is translated in the context \<open>func_body_entry\<close>, whose symbol cache
  is empty and whose temporary counter is the one the preceding unit left, so the first
  temporary allocated inside the function carries that number. The counter never
  decreases, neither within a statement nor across the units of a program; an expression
  advances it by \<open>temps_used\<close>, a number that depends on the expression alone (a read
  served from the cache consumes a number as well).
\<close>

theorem temp_counter_not_reset:
  "gen_node (FuncDeclNode return_type name params body) c =
     emit IBlank (case body of None \<Rightarrow> func_body_entry return_type name params c
                  | Some b \<Rightarrow> gen_stmt (BlockNode b) (func_body_entry return_type name params c)) \<and>
   symbol_to_temp (func_body_entry return_type name params c) = Map.empty \<and>
   temp_count (func_body_entry return_type name params c) = temp_count c \<and>
   fst (new_temp (func_body_entry return_type name params c)) = ''t'' @ to_string (temp_count c) \<and>
   temp_count (snd (gen_expr e c)) = temp_count c + int (temps_used e) \<and>
   temp_count c \<le> temp_count (gen_stmt s c) \<and>
   temp_count c \<le> temp_count (gen_node n c)"
  by (simp add: gen_stmt_temp_count_mono gen_expr_temp_count new_temp_def del: gen_expr.simps)
    (simp add: func_body_entry_def)

subsection \<open>Labels\<close>

text \<open>
  Claim C8. Translating any unit, in particular a whole program, from any context never
  decreases the label counter, and the labels it defines (the \<^verbatim>\<open>Lk:\<close> lines it
  appends to the output) are exactly the \<^verbatim>\<open>Lk\<close> with \<open>k\<close> from the counter before up
  to the counter after, each defined once: they are pairwise distinct, as names and as
  lines of text. Nothing resets the counter between the functions of a program.
\<close>

theorem labels_pairwise_distinct:
  "label_count c \<le> label_count (gen_node n c) \<and>
   outcode (gen_node n c) = outcode c @ emitted c (gen_node n c) \<and>
   set (labels_of (emitted c (gen_node n c))) =
     (\<lambda>k. ''L'' @ to_string k) ` {label_count c ..< label_count (gen_node n c)} \<and>
   distinct (labels_of (emitted c (gen_node n c))) \<and>
   distinct (map (\<lambda>l. render (ILabel l)) (labels_of (emitted c (gen_node n c))))"
proof -
  have "labels_added c (gen_node n c) {label_count c ..< label_count (gen_node n c)}"
    by (rule gen_stmt_labels)
  then have a: "outcode (gen_node n c) = outcode c @ emitted c (gen_node n c)"
    and s: "set (labels_of (emitted c (gen_node n c))) =
      (\<lambda>k. ''L'' @ to_string k) ` {label_count c ..< label_count (gen_node n c)}"
    and d: "distinct (labels_of (emitted c (gen_node n c)))"
    by (simp_all add: labels_added_def appended_def label_name_def)
  have "inj_on (\<lambda>l. render (ILabel l)) A" for A
    by (rule inj_onI) simp
  with d have "distinct (map (\<lambda>l. render (ILabel l)) (labels_of (emitted c (gen_node n c))))"
    by (simp add: distinct_map)
  moreover have "label_count c \<le> label_count (gen_node n c)"
    by (rule gen_stmt_label_count_mono) simp
  ultimately show ?thesis using a s d by blast
qed

subsection \<open>Binary operations\<close>

text \<open>
  Claim C9. The instructions written for a binary operation are those written for the
  left operand (from the context of the operation), then those written for the right
  operand (from the context the left operand leaves), then the single instruction
  \<^verbatim>\<open>tN = left OP right\<close>, where \<open>N\<close> is the counter the right operand leaves. Every
  instruction of the left operand, a call included, therefore precedes every instruction
  of the right operand.
\<close>

theorem binary_op_left_before_right:
  "outcode (snd (gen_expr left c)) = outcode c @ emitted c (snd (gen_expr left c)) \<and>
   outcode (snd (gen_expr right (snd (gen_expr left c)))) =
     outcode (snd (gen_expr left c)) @
     emitted (snd (gen_expr left c)) (snd (gen_expr right (snd (gen_expr left c)))) \<and>
   outcode (snd (gen_expr (BinaryOpNode op left right ty) c)) =
     outcode c @
     emitted c (snd (gen_expr left c)) @
     emitted (snd (gen_expr left c)) (snd (gen_expr right (snd (gen_expr left c)))) @
     [IBinOp (''t'' @ to_string (temp_count (snd (gen_expr right (snd (gen_expr left c))))))
        (fst (gen_expr left c)) op (fst (gen_expr right (snd (gen_expr left c))))] \<and>
   fst (gen_expr (BinaryOpNode op left right ty) c) =
     ''t'' @ to_string (temp_count (snd (gen_expr right (snd (gen_expr left c)))))"
proof -
  define c1 where "c1 = snd (gen_expr left c)"
  define c2 where "c2 = snd (gen_expr right c1)"
  have 1: "outcode c1 = outcode c @ emitted c c1"
    unfolding c1_def by (rule gen_expr_outcode)
  have 2: "outcode c2 = outcode c1 @ emitted c1 c2"
    unfolding c2_def by (rule gen_expr_outcode)
  have 3: "outcode (snd (gen_expr (BinaryOpNode op left right ty) c)) =
      outcode c2 @ [IBinOp (''t'' @ to_string (temp_count c2)) (fst (gen_expr left c)) op
        (fst (gen_expr right c1))]"
    by (simp add: split_beta Let_def new_temp_def c1_def c2_def)
  have 4: "fst (gen_expr (BinaryOpNode op left right ty) c) = ''t'' @ to_string (temp_count c2)"
    by (simp add: split_beta Let_def new_temp_def c1_def c2_def)
  from 1 2 3 4 show ?thesis
    unfolding c1_def c2_def by (metis append.assoc)
qed

subsection \<open>The worked example of an if statement\<close>

text \<open>
  Claim C5. From a context with an empty output, both counters at 0 and an empty symbol
  cache, the statement \<^verbatim>\<open>if (x) { y = 1; } else { y = 2; }\<close> is translated to exactly
  the eleven lines \<^verbatim>\<open>t0 = x\<close>, \<^verbatim>\<open>if t0 goto L0\<close>, \<^verbatim>\<open>goto L1\<close>,
  \<^verbatim>\<open>L0:\<close>, \<^verbatim>\<open>t1 = 1\<close>, \<^verbatim>\<open>y = t1\<close>, \<^verbatim>\<open>goto L2\<close>, \<^verbatim>\<open>L1:\<close>,
  \<^verbatim>\<open>t2 = 2\<close>, \<^verbatim>\<open>y = t2\<close>, \<^verbatim>\<open>L2:\<close>, in this order, whatever the two static
  members of \<^verbatim>\<open>VarNode\<close> hold.
\<close>

theorem if_else_example:
  "map render (outcode (gen_stmt
     (IfNode (VarNode ''x'' ''int'' None)
        (Some (BlockNode [ExprStmtNode (Some
           (AssignNode ''y'' ''int'' None (ConstNode ''1'' ''int'') ''int''))]))
        (Some (BlockNode [ExprStmtNode (Some
           (AssignNode ''y'' ''int'' None (ConstNode ''2'' ''int'') ''int''))])))
     \<lparr>outcode = [], symbol_to_temp = Map.empty, temp_count = 0, label_count = 0,
      force_fresh_load = ff, last_access = la\<rparr>))
   = [''t0 = x'', ''if t0 goto L0'', ''goto L1'', ''L0:'', ''t1 = 1'', ''y = t1'',
      ''goto L2'', ''L1:'', ''t2 = 2'', ''y = t2'', ''L2:'']"
  by (simp add: gen_stmt.simps(4) new_temp_def new_label_def emit_def to_string_small
      del: gen_stmt_If)

subsection \<open>A for loop whose condition is an empty expression statement\<close>

text \<open>
  Claim C10. When the condition unit of a \<^verbatim>\<open>for\<close> is an \<^verbatim>\<open>ExprStmtNode\<close> with
  a null expression, \<^verbatim>\<open>cond_temp\<close> keeps its default \<^verbatim>\<open>1\<close> and the condition
  writes no instruction, yet the symbol cache is emptied and replaced by the empty
  \<^verbatim>\<open>last_access\<close>: the body is translated with an empty cache. When the condition
  pointer is null, \<^verbatim>\<open>cond_temp\<close> is \<^verbatim>\<open>1\<close> as well and the context, the cache
  included, is left as it is. \<open>for_body_entry\<close> is the context in which the loop body is
  translated, as the last conjunct states.
\<close>

theorem for_null_condition_clears_cache:
  "for_cond (Some (Stmt (ExprStmtNode None))) c =
     (''1'', c\<lparr>symbol_to_temp := Map.empty, force_fresh_load := False, last_access := Map.empty\<rparr>) \<and>
   for_cond None c = (''1'', c) \<and>
   for_body_entry init (Some (Stmt (ExprStmtNode None))) c =
     (let c0 = for_init init c; k = label_count c0
      in c0\<lparr>outcode := outcode c0 @
              [ILabel (''L'' @ to_string k), IIfGoto ''1'' (''L'' @ to_string (k + 1)),
               IGoto (''L'' @ to_string (k + 2)), ILabel (''L'' @ to_string (k + 1))],
            symbol_to_temp := Map.empty, label_count := k + 3,
            force_fresh_load := False, last_access := Map.empty\<rparr>) \<and>
   for_body_entry init None c =
     (let c0 = for_init init c; k = label_count c0
      in c0\<lparr>outcode := outcode c0 @
              [ILabel (''L'' @ to_string k), IIfGoto ''1'' (''L'' @ to_string (k + 1)),
               IGoto (''L'' @ to_string (k + 2)), ILabel (''L'' @ to_string (k + 1))],
            label_count := k + 3\<rparr>) \<and>
   gen_stmt (ForNode init condition update body) c =
     (let k = label_count (for_init init c);
          c9 = gen_stmt_opt body (for_body_entry init condition c);
          c10 = (case update of None \<Rightarrow> c9 | Some u \<Rightarrow> snd (gen_expr u c9))
      in emit (ILabel (''L'' @ to_string (k + 2))) (emit (IGoto (''L'' @ to_string k)) c10))"
proof -
  have "gen_stmt (ForNode init condition update body) c =
     (let k = label_count (for_init init c);
          c9 = gen_stmt_opt body (for_body_entry init condition c);
          c10 = (case update of None \<Rightarrow> c9 | Some u \<Rightarrow> snd (gen_expr u c9))
      in emit (ILabel (''L'' @ to_string (k + 2))) (emit (IGoto (''L'' @ to_string k)) c10))"
    using gen_stmt_For [of init condition update body c] by (simp only: label_name_def)
  then show ?thesis
    by (simp add: for_body_entry_def for_cond_entry_def Let_def emit_def label_name_def
        del: gen_stmt_For)
qed

subsection \<open>Indexed accesses and the symbol cache\<close>

text \<open>
  Claim C2 says that an indexed access never inserts or updates a cache entry for the
  base name. In \<^verbatim>\<open>VarNode::generate_code\<close> the assignment
  \<^verbatim>\<open>symbol_to_temp[name] = temp\<close> stands after the test of \<^verbatim>\<open>has_index()\<close>, not
  inside its scalar branch, so every indexed access stores the temporary of the loaded
  element under the base name. The access \<^verbatim>\<open>a[0]\<close>, translated from an empty cache,
  leaves the entry \<^verbatim>\<open>a\<close> \<open>\<mapsto>\<close> \<^verbatim>\<open>t0\<close>, and a scalar read of \<^verbatim>\<open>a\<close> after it
  returns \<^verbatim>\<open>t0\<close> without a load. The indexed access itself never reads the cache and
  always writes its load.
\<close>

theorem indexed_access_writes_cache:
  "symbol_to_temp (snd (gen_expr (VarNode name ty (Some index)) c)) name =
     Some (''t'' @ to_string (temp_count c)) \<and>
   (let c1 = snd (gen_expr (VarNode ''a'' ''int'' (Some (ConstNode ''0'' ''int'')))
                 \<lparr>outcode = [], symbol_to_temp = Map.empty, temp_count = 0, label_count = 0,
                  force_fresh_load = False, last_access = Map.empty\<rparr>)
    in map render (outcode c1) = [''t1 = 0'', ''t0 = a[t1]''] \<and>
       symbol_to_temp c1 ''a'' = Some ''t0'' \<and>
       fst (gen_expr (VarNode ''a'' ''int'' None) c1) = ''t0'' \<and>
       outcode (snd (gen_expr (VarNode ''a'' ''int'' None) c1)) = outcode c1)"
  by (simp add: split_beta Let_def new_temp_def emit_def to_string_small)

subsection \<open>Calls and the symbol cache\<close>

text \<open>
  Claim C3 says that a call invalidates the symbol cache. It does not:
  \<^verbatim>\<open>FuncCallNode::generate_code\<close> never touches \<^verbatim>\<open>symbol_to_temp\<close>. In
  \<^verbatim>\<open>y = x; f(); z = x;\<close> the read of \<^verbatim>\<open>x\<close> after the call reuses \<^verbatim>\<open>t0\<close>, loaded
  before the call, and no load is written for it.
\<close>

theorem call_invalidation_counterexample:
  "map render (outcode (gen_stmt
     (BlockNode
        [ExprStmtNode (Some (AssignNode ''y'' ''int'' None (VarNode ''x'' ''int'' None) ''int'')),
         ExprStmtNode (Some (FuncCallNode ''f'' [] ''void'')),
         ExprStmtNode (Some (AssignNode ''z'' ''int'' None (VarNode ''x'' ''int'' None) ''int''))])
     \<lparr>outcode = [], symbol_to_temp = Map.empty, temp_count = 0, label_count = 0,
      force_fresh_load = False, last_access = Map.empty\<rparr>))
   = [''t0 = x'', ''y = t0'', ''call f, 0'', ''z = t0'']"
  by (simp add: split_beta Let_def new_temp_def emit_def to_string_small)

text \<open>
  Claim C3 as amended. A call does not invalidate the symbol cache. Neither the
  \<^verbatim>\<open>call\<close> line nor the load of an argument that is a variable reference reads or
  writes the cache: the cache after the call is the cache after the loop over the
  arguments, a scalar variable argument leaves the cache as it is, and an indexed
  variable argument leaves it as the translation of its index expression leaves it (no
  entry is stored under the base name). The index expression of such an argument, like
  every argument that is not a variable reference, is translated as an expression and
  does read and write the cache. So a call changes the cache through its argument
  expressions only: an entry, present or absent, whose name is not among the names these
  expressions read through \<^verbatim>\<open>VarNode::generate_code\<close> or assign (\<open>cache_writes_args\<close>)
  is the same after the call as before, whatever the flag. And when the forced-fresh
  flag is clear, a variable cached before the call whose entry the argument expressions
  do not overwrite (\<open>overwrites_args\<close>: the targets of their scalar assignments and the
  base names of their indexed reads) is still cached with the same temporary after the
  call, and a scalar read of it there returns that temporary, writes no instruction and
  advances the counter by one.
\<close>

theorem call_keeps_cache:
  "symbol_to_temp (snd (gen_expr (FuncCallNode func_name arguments ty) c)) =
     symbol_to_temp (gen_args arguments c) \<and>
   symbol_to_temp (snd (gen_arg (VarNode name vty None) c)) = symbol_to_temp c \<and>
   symbol_to_temp (snd (gen_arg (VarNode name vty (Some index)) c)) =
     symbol_to_temp (snd (gen_expr index (c\<lparr>temp_count := temp_count c + 1\<rparr>))) \<and>
   (y \<notin> cache_writes_args arguments \<longrightarrow>
      symbol_to_temp (snd (gen_expr (FuncCallNode func_name arguments ty) c)) y = symbol_to_temp c y) \<and>
   (\<not> force_fresh_load c \<and> symbol_to_temp c x = Some t \<and> x \<notin> overwrites_args arguments \<longrightarrow>
      symbol_to_temp (snd (gen_expr (FuncCallNode func_name arguments ty) c)) x = Some t \<and>
      gen_expr (VarNode x xty None) (snd (gen_expr (FuncCallNode func_name arguments ty) c)) =
        (t, (snd (gen_expr (FuncCallNode func_name arguments ty) c))
              \<lparr>temp_count := temp_count (snd (gen_expr (FuncCallNode func_name arguments ty) c)) + 1,
               last_access :=
                 (last_access (snd (gen_expr (FuncCallNode func_name arguments ty) c)))(x \<mapsto> t)\<rparr>))"
proof -
  define c' where "c' = snd (gen_expr (FuncCallNode func_name arguments ty) c)"
  have a: "symbol_to_temp c' = symbol_to_temp (gen_args arguments c)"
    by (simp add: c'_def Let_def split_beta new_temp_def)
  have b: "symbol_to_temp (snd (gen_arg (VarNode name vty None) c)) = symbol_to_temp c"
    by (simp add: split_beta Let_def new_temp_def)
  have d: "symbol_to_temp (snd (gen_arg (VarNode name vty (Some index)) c)) =
     symbol_to_temp (snd (gen_expr index (c\<lparr>temp_count := temp_count c + 1\<rparr>)))"
    by (simp add: split_beta Let_def new_temp_def)
  have e: "symbol_to_temp c' y = symbol_to_temp c y" if "y \<notin> cache_writes_args arguments"
  proof -
    from that have "y \<notin> cache_writes (FuncCallNode func_name arguments ty)" by simp
    from gen_expr_cache_frame(1) [OF this] show ?thesis by (simp only: c'_def)
  qed
  have f: "symbol_to_temp c' x = Some t \<and>
      gen_expr (VarNode x xty None) c' =
        (t, c'\<lparr>temp_count := temp_count c' + 1, last_access := (last_access c')(x \<mapsto> t)\<rparr>)"
    if h: "\<not> force_fresh_load c \<and> symbol_to_temp c x = Some t \<and> x \<notin> overwrites_args arguments"
  proof -
    from h have h1: "\<not> force_fresh_load c" and h2: "symbol_to_temp c x = Some t"
      and "x \<notin> overwrites (FuncCallNode func_name arguments ty)" by simp_all
    from gen_expr_cache_kept(1) [OF this]
    have k: "symbol_to_temp c' x = Some t" by (simp only: c'_def)
    have ff: "\<not> force_fresh_load c'" unfolding c'_def gen_expr_force_fresh by (rule h1)
    have "gen_expr (VarNode x xty None) c' =
        (t, c'\<lparr>temp_count := temp_count c' + 1, last_access := (last_access c')(x \<mapsto> t)\<rparr>)"
      using k ff by simp
    with k show ?thesis by blast
  qed
  from a b d e f show ?thesis unfolding c'_def by blast
qed

theorem call_keeps_cache_witness:
  "\<not> force_fresh_load \<lparr>outcode = [], symbol_to_temp = [''x'' \<mapsto> ''t0''], temp_count = 1,
       label_count = 0, force_fresh_load = False, last_access = Map.empty\<rparr> \<and>
   symbol_to_temp \<lparr>outcode = [], symbol_to_temp = [''x'' \<mapsto> ''t0''], temp_count = 1,
       label_count = 0, force_fresh_load = False, last_access = Map.empty\<rparr> ''x'' = Some ''t0'' \<and>
   ''x'' \<notin> overwrites_args
       [VarNode ''x'' ''int'' None, VarNode ''a'' ''int'' (Some (VarNode ''i'' ''int'' None))] \<and>
   ''a'' \<notin> cache_writes_args
       [VarNode ''x'' ''int'' None, VarNode ''a'' ''int'' (Some (VarNode ''i'' ''int'' None))] \<and>
   (let c' = snd (gen_expr (FuncCallNode ''f''
                [VarNode ''x'' ''int'' None, VarNode ''a'' ''int'' (Some (VarNode ''i'' ''int'' None))]
                ''int'')
              \<lparr>outcode = [], symbol_to_temp = [''x'' \<mapsto> ''t0''], temp_count = 1,
               label_count = 0, force_fresh_load = False, last_access = Map.empty\<rparr>)
    in symbol_to_temp c' ''x'' = Some ''t0'' \<and>
       fst (gen_expr (VarNode ''x'' ''int'' None) c') = ''t0'' \<and>
       outcode (snd (gen_expr (VarNode ''x'' ''int'' None) c')) = outcode c' \<and>
       symbol_to_temp c' ''a'' = None \<and>
       symbol_to_temp c' ''i'' = Some ''t3'' \<and>
       map render (outcode c') =
         [''t1 = x'', ''param t1'', ''t3 = i'', ''t2 = a[t3]'', ''param t2'', ''t4 = call f, 2''])"
proof -
  let ?c = "\<lparr>outcode = [], symbol_to_temp = [''x'' \<mapsto> ''t0''], temp_count = 1,
       label_count = 0, force_fresh_load = False, last_access = Map.empty\<rparr>"
  let ?args = "[VarNode ''x'' ''int'' None, VarNode ''a'' ''int'' (Some (VarNode ''i'' ''int'' None))]"
  let ?c' = "snd (gen_expr (FuncCallNode ''f'' ?args ''int'') ?c)"
  have h1: "\<not> force_fresh_load ?c" by simp
  have h2: "symbol_to_temp ?c ''x'' = Some ''t0''" by simp
  have h3: "''x'' \<notin> overwrites_args ?args" by simp
  have h4: "''a'' \<notin> cache_writes_args ?args" by simp
  note th = call_keeps_cache [where c = ?c and arguments = ?args and func_name = "''f''"
      and ty = "''int''" and x = "''x''" and t = "''t0''" and y = "''a''" and xty = "''int''"]
  from th h1 h2 h3 have 1: "symbol_to_temp ?c' ''x'' = Some ''t0''" by blast
  from th h1 h2 h3 have "gen_expr (VarNode ''x'' ''int'' None) ?c' =
      (''t0'', ?c'\<lparr>temp_count := temp_count ?c' + 1,
                    last_access := (last_access ?c')(''x'' \<mapsto> ''t0'')\<rparr>)" by blast
  then have 2: "fst (gen_expr (VarNode ''x'' ''int'' None) ?c') = ''t0''"
    and 3: "outcode (snd (gen_expr (VarNode ''x'' ''int'' None) ?c')) = outcode ?c'"
    by (simp_all only: fst_conv snd_conv) simp
  from th h4 have "symbol_to_temp ?c' ''a'' = symbol_to_temp ?c ''a''" by blast
  then have 4: "symbol_to_temp ?c' ''a'' = None" by simp
  have 5: "symbol_to_temp ?c' ''i'' = Some ''t3''"
    by (simp add: split_beta Let_def new_temp_def emit_def to_string_small)
  have 6: "map render (outcode ?c') =
      [''t1 = x'', ''param t1'', ''t3 = i'', ''t2 = a[t3]'', ''param t2'', ''t4 = call f, 2'']"
    by (simp add: split_beta Let_def new_temp_def emit_def to_string_small)
  from h1 h2 h3 h4 1 2 3 4 5 6 show ?thesis unfolding Let_def by blast
qed

subsection \<open>Scalar reads and the symbol cache\<close>

text \<open>
  Claim C6. With the forced-fresh flag clear, a scalar read of a variable whose name has
  a cache entry returns the cached temporary, writes no instruction and still advances
  the temporary counter by one; it also records the temporary in \<^verbatim>\<open>last_access\<close>.
  (Without an entry it loads the variable into a fresh temporary and caches it.) Hence two
  scalar reads of one variable yield the same temporary, and the second writes nothing:
  both when the second read follows the first at once, where the two reads together
  write one load if the variable was not cached and none if it was, and when an
  expression \<open>e\<close> or a statement \<open>s\<close> that does not overwrite the entry of the variable
  is translated between them. \<open>overwrites e\<close> holds the targets of the scalar
  assignments of \<open>e\<close> and the base names of its indexed reads; under the input contract
  of the translation a scalar variable is never indexed, so the hypothesis on \<open>e\<close> says
  that \<open>e\<close> does not assign the variable. \<open>keeps_cached name s\<close> says the same of every
  expression of \<open>s\<close>, and that no \<^verbatim>\<open>for\<close> loop of \<open>s\<close> has a condition unit, whose
  evaluation replaces the cache. Reads of the variable, constants, operators, calls,
  \<^verbatim>\<open>if\<close> and \<^verbatim>\<open>while\<close> may occur between the two reads.
\<close>

theorem cached_scalar_read:
  assumes "\<not> force_fresh_load c" and "name \<notin> overwrites e" and "keeps_cached name s"
  shows "gen_expr (VarNode name ty None) c =
      (case symbol_to_temp c name of
         Some t \<Rightarrow>
           (t, c\<lparr>temp_count := temp_count c + 1, last_access := (last_access c)(name \<mapsto> t)\<rparr>)
       | None \<Rightarrow>
           (''t'' @ to_string (temp_count c),
            c\<lparr>outcode := outcode c @ [ILoad (''t'' @ to_string (temp_count c)) name],
              symbol_to_temp := (symbol_to_temp c)(name \<mapsto> ''t'' @ to_string (temp_count c)),
              temp_count := temp_count c + 1,
              last_access := (last_access c)(name \<mapsto> ''t'' @ to_string (temp_count c))\<rparr>)) \<and>
    (let (t1, c1) = gen_expr (VarNode name ty None) c;
         (t2, c2) = gen_expr (VarNode name ty None) c1
     in t2 = t1 \<and> outcode c2 = outcode c1 \<and> temp_count c2 = temp_count c1 + 1 \<and>
        emitted c c2 = (case symbol_to_temp c name of Some t \<Rightarrow> [] | None \<Rightarrow> [ILoad t1 name])) \<and>
    (let (t1, c1) = gen_expr (VarNode name ty None) c;
         (v, c2) = gen_expr e c1;
         (t2, c3) = gen_expr (VarNode name ty None) c2
     in t2 = t1 \<and> outcode c3 = outcode c2 \<and> temp_count c3 = temp_count c2 + 1) \<and>
    (let (t1, c1) = gen_expr (VarNode name ty None) c;
         c2 = gen_stmt s c1;
         (t2, c3) = gen_expr (VarNode name ty None) c2
     in t2 = t1 \<and> outcode c3 = outcode c2 \<and> temp_count c3 = temp_count c2 + 1)"
proof -
  obtain t1 c1 where r1: "gen_expr (VarNode name ty None) c = (t1, c1)" by force
  have first: "gen_expr (VarNode name ty None) c =
      (case symbol_to_temp c name of
         Some t \<Rightarrow>
           (t, c\<lparr>temp_count := temp_count c + 1, last_access := (last_access c)(name \<mapsto> t)\<rparr>)
       | None \<Rightarrow>
           (''t'' @ to_string (temp_count c),
            c\<lparr>outcode := outcode c @ [ILoad (''t'' @ to_string (temp_count c)) name],
              symbol_to_temp := (symbol_to_temp c)(name \<mapsto> ''t'' @ to_string (temp_count c)),
              temp_count := temp_count c + 1,
              last_access := (last_access c)(name \<mapsto> ''t'' @ to_string (temp_count c))\<rparr>))"
    using assms(1) by (simp add: new_temp_def emit_def split: option.splits)
  have c1: "\<not> force_fresh_load c1" "symbol_to_temp c1 name = Some t1"
    using r1 assms(1) unfolding first by (auto split: option.splits)
  have em: "emitted c c1 = (case symbol_to_temp c name of Some t \<Rightarrow> [] | None \<Rightarrow> [ILoad t1 name])"
    using r1 unfolding first by (auto simp: emitted_def split: option.splits)
  have hit: "gen_expr (VarNode name ty None) c' =
      (t1, c'\<lparr>temp_count := temp_count c' + 1, last_access := (last_access c')(name \<mapsto> t1)\<rparr>)"
    if "\<not> force_fresh_load c'" and "symbol_to_temp c' name = Some t1" for c'
    using that by simp
  have second: "(let (t2, c2) = gen_expr (VarNode name ty None) c1
     in t2 = t1 \<and> outcode c2 = outcode c1 \<and> temp_count c2 = temp_count c1 + 1 \<and>
        emitted c c2 = (case symbol_to_temp c name of Some t \<Rightarrow> [] | None \<Rightarrow> [ILoad t1 name]))"
    unfolding hit [OF c1] using em by (simp add: emitted_def)
  obtain v c2 where r2: "gen_expr e c1 = (v, c2)" by force
  have c2: "\<not> force_fresh_load c2" "symbol_to_temp c2 name = Some t1"
    using gen_expr_force_fresh(1) [of e c1] gen_expr_cache_kept(1) [OF c1 assms(2)] c1(1) r2
    by simp_all
  have third: "(let (t2, c3) = gen_expr (VarNode name ty None) c2
     in t2 = t1 \<and> outcode c3 = outcode c2 \<and> temp_count c3 = temp_count c2 + 1)"
    unfolding hit [OF c2] by simp
  have B: "(let (t1, c1) = gen_expr (VarNode name ty None) c;
         (t2, c2) = gen_expr (VarNode name ty None) c1
     in t2 = t1 \<and> outcode c2 = outcode c1 \<and> temp_count c2 = temp_count c1 + 1 \<and>
        emitted c c2 = (case symbol_to_temp c name of Some t \<Rightarrow> [] | None \<Rightarrow> [ILoad t1 name]))"
    unfolding r1 Let_def prod.case by (rule second [unfolded Let_def])
  have C: "(let (t1, c1) = gen_expr (VarNode name ty None) c;
         (v, c2) = gen_expr e c1;
         (t2, c3) = gen_expr (VarNode name ty None) c2
     in t2 = t1 \<and> outcode c3 = outcode c2 \<and> temp_count c3 = temp_count c2 + 1)"
    unfolding r1 Let_def prod.case r2 by (rule third [unfolded Let_def])
  have c3: "\<not> force_fresh_load (gen_stmt s c1)" "symbol_to_temp (gen_stmt s c1) name = Some t1"
    using gen_stmt_cache_kept(1) [OF c1 assms(3)] by simp_all
  have fourth: "(let (t2, c3) = gen_expr (VarNode name ty None) (gen_stmt s c1)
     in t2 = t1 \<and> outcode c3 = outcode (gen_stmt s c1) \<and>
        temp_count c3 = temp_count (gen_stmt s c1) + 1)"
    unfolding hit [OF c3] by simp
  have D: "(let (t1, c1) = gen_expr (VarNode name ty None) c;
         c2 = gen_stmt s c1;
         (t2, c3) = gen_expr (VarNode name ty None) c2
     in t2 = t1 \<and> outcode c3 = outcode c2 \<and> temp_count c3 = temp_count c2 + 1)"
    unfolding r1 Let_def prod.case by (rule fourth [unfolded Let_def])
  show ?thesis by (intro conjI first B C D)
qed

theorem cached_scalar_read_witness:
  "\<not> force_fresh_load \<lparr>outcode = [], symbol_to_temp = Map.empty, temp_count = 0,
       label_count = 0, force_fresh_load = False, last_access = Map.empty\<rparr> \<and>
   ''x'' \<notin> overwrites (AssignNode ''y'' ''int'' None
       (BinaryOpNode ''+'' (VarNode ''x'' ''int'' None) (FuncCallNode ''f'' [] ''int'') ''int'') ''int'') \<and>
   keeps_cached ''x'' (WhileNode (VarNode ''y'' ''int'' None)
       (Some (ExprStmtNode (Some (FuncCallNode ''g'' [VarNode ''x'' ''int'' None] ''void''))))) \<and>
   (let (t1, c1) = gen_expr (VarNode ''x'' ''int'' None)
          \<lparr>outcode = [], symbol_to_temp = Map.empty, temp_count = 0,
           label_count = 0, force_fresh_load = False, last_access = Map.empty\<rparr>;
        (v, c2) = gen_expr (AssignNode ''y'' ''int'' None
          (BinaryOpNode ''+'' (VarNode ''x'' ''int'' None) (FuncCallNode ''f'' [] ''int'') ''int'') ''int'') c1;
        (t2, c3) = gen_expr (VarNode ''x'' ''int'' None) c2
    in t1 = ''t0'' \<and> t2 = ''t0'' \<and>
       map render (outcode c3) = [''t0 = x'', ''t2 = call f, 0'', ''t3 = t0 + t2'', ''y = t3'']) \<and>
   (let (t1, c1) = gen_expr (VarNode ''x'' ''int'' None)
          \<lparr>outcode = [], symbol_to_temp = Map.empty, temp_count = 0,
           label_count = 0, force_fresh_load = False, last_access = Map.empty\<rparr>;
        c2 = gen_stmt (WhileNode (VarNode ''y'' ''int'' None)
          (Some (ExprStmtNode (Some (FuncCallNode ''g'' [VarNode ''x'' ''int'' None] ''void''))))) c1;
        (t2, c3) = gen_expr (VarNode ''x'' ''int'' None) c2
    in t1 = ''t0'' \<and> t2 = ''t0'' \<and>
       map render (outcode c3) =
         [''t0 = x'', ''L0:'', ''t1 = y'', ''if t1 goto L1'', ''goto L2'', ''L1:'',
          ''t2 = x'', ''param t2'', ''call g, 1'', ''goto L0'', ''L2:''])"
proof -
  let ?c = "\<lparr>outcode = [], symbol_to_temp = Map.empty, temp_count = 0,
       label_count = 0, force_fresh_load = False, last_access = Map.empty\<rparr>"
  let ?e = "AssignNode ''y'' ''int'' None
       (BinaryOpNode ''+'' (VarNode ''x'' ''int'' None) (FuncCallNode ''f'' [] ''int'') ''int'') ''int''"
  have h1: "\<not> force_fresh_load ?c" by simp
  have h2: "''x'' \<notin> overwrites ?e" by simp
  have h3: "keeps_cached ''x'' (WhileNode (VarNode ''y'' ''int'' None)
       (Some (ExprStmtNode (Some (FuncCallNode ''g'' [VarNode ''x'' ''int'' None] ''void'')))))"
    by simp
  from cached_scalar_read [OF h1 h2 h3, of "''int''"] h1 h2 h3 show ?thesis
    by (simp add: split_beta Let_def new_temp_def new_label_def emit_def to_string_small
        gen_stmt.simps(5) del: gen_stmt_While)
qed

subsection \<open>Calls\<close>

text \<open>
  Claim C7. In a call, an argument that is a variable reference is loaded into a fresh
  temporary whatever the cache and the forced-fresh flag hold, and the cache is not
  touched (for an indexed variable the index expression is translated first, after the
  temporary has been allocated); any other argument is translated as an expression.
  Each argument contributes its own instructions followed by exactly one
  \<^verbatim>\<open>param\<close> line with its temporary, argument after argument in the order of the
  list; over a whole expression the number of \<^verbatim>\<open>param\<close> lines is the number of
  arguments of all its calls. After the arguments, a call of type \<^verbatim>\<open>void\<close> writes
  \<^verbatim>\<open>call name, n\<close> and returns the empty string without allocating a temporary; any
  other call allocates a fresh temporary \<open>tN\<close> and writes \<^verbatim>\<open>tN = call name, n\<close>, \<open>n\<close>
  being the number of arguments.
\<close>

theorem call_arguments_and_result:
  "gen_arg (VarNode name vty None) c =
     (''t'' @ to_string (temp_count c),
      c\<lparr>outcode := outcode c @ [ILoad (''t'' @ to_string (temp_count c)) name],
        temp_count := temp_count c + 1\<rparr>) \<and>
   gen_arg (VarNode name vty (Some index)) c =
     (let (idx_temp, c2) = gen_expr index (c\<lparr>temp_count := temp_count c + 1\<rparr>)
      in (''t'' @ to_string (temp_count c),
          emit (ILoadIdx (''t'' @ to_string (temp_count c)) name idx_temp) c2)) \<and>
   gen_arg (ConstNode val ty1) c = gen_expr (ConstNode val ty1) c \<and>
   gen_arg (BinaryOpNode op left right ty2) c = gen_expr (BinaryOpNode op left right ty2) c \<and>
   gen_arg (UnaryOpNode op e ty3) c = gen_expr (UnaryOpNode op e ty3) c \<and>
   gen_arg (AssignNode lhs_name lhs_ty lhs_index rhs ty4) c =
     gen_expr (AssignNode lhs_name lhs_ty lhs_index rhs ty4) c \<and>
   gen_arg (FuncCallNode callee inner ty5) c = gen_expr (FuncCallNode callee inner ty5) c \<and>
   gen_args [] c = c \<and>
   (let (arg_temp, c1) = gen_arg arg c;
        c2 = emit (IParam arg_temp) c1
    in gen_args (arg # rest) c = gen_args rest c2 \<and>
       outcode (gen_args (arg # rest) c) =
         outcode c @ emitted c c1 @ [IParam arg_temp] @ emitted c2 (gen_args rest c2)) \<and>
   length (params_of (emitted c (gen_args arguments c))) =
     length arguments + call_args_list arguments \<and>
   length (params_of (emitted c (snd (gen_expr ex c)))) = call_args ex \<and>
   gen_expr (FuncCallNode func_name arguments ty) c =
     (let c1 = gen_args arguments c
      in if ty = ''void'' then ([], c1\<lparr>outcode := outcode c1 @ [ICallVoid func_name (length arguments)]\<rparr>)
         else (''t'' @ to_string (temp_count c1),
               c1\<lparr>outcode := outcode c1 @
                      [ICall (''t'' @ to_string (temp_count c1)) func_name (length arguments)],
                  temp_count := temp_count c1 + 1\<rparr>)) \<and>
   render (ICallVoid func_name (length arguments)) =
     ''call '' @ func_name @ '', '' @ to_string (int (length arguments)) \<and>
   render (ICall tn func_name (length arguments)) =
     tn @ '' = call '' @ func_name @ '', '' @ to_string (int (length arguments)) \<and>
   render (IParam tn) = ''param '' @ tn"
proof -
  obtain arg_temp c1 where r: "gen_arg arg c = (arg_temp, c1)" by force
  define c2 where "c2 = emit (IParam arg_temp) c1"
  have a1: "appended c c1" using gen_expr_appended(3) [OF appended_refl, of c arg] r by simp
  have a2: "appended c1 c2" unfolding c2_def by simp
  have a3: "appended c2 (gen_args rest c2)" by simp
  have e12: "emitted c1 c2 = [IParam arg_temp]" by (simp add: c2_def emitted_def)
  have "outcode (gen_args rest c2) = outcode c @ emitted c c1 @ [IParam arg_temp] @ emitted c2 (gen_args rest c2)"
    using a1 a2 a3 e12 by (simp add: appended_def)
  then have cons: "(let (arg_temp, c1) = gen_arg arg c;
        c2 = emit (IParam arg_temp) c1
    in gen_args (arg # rest) c = gen_args rest c2 \<and>
       outcode (gen_args (arg # rest) c) =
         outcode c @ emitted c c1 @ [IParam arg_temp] @ emitted c2 (gen_args rest c2))"
    by (simp add: r c2_def)
  have p1: "length (params_of (emitted c (gen_args arguments c))) =
     length arguments + call_args_list arguments"
    by (simp add: emitted_params gen_expr_params)
  have p2: "length (params_of (emitted c (snd (gen_expr ex c)))) = call_args ex"
    by (simp add: emitted_params gen_expr_params del: gen_expr.simps)
  have call: "gen_expr (FuncCallNode func_name arguments ty) c =
     (let c1 = gen_args arguments c
      in if ty = ''void'' then ([], c1\<lparr>outcode := outcode c1 @ [ICallVoid func_name (length arguments)]\<rparr>)
         else (''t'' @ to_string (temp_count c1),
               c1\<lparr>outcode := outcode c1 @
                      [ICall (''t'' @ to_string (temp_count c1)) func_name (length arguments)],
                  temp_count := temp_count c1 + 1\<rparr>))"
    by (simp add: Let_def new_temp_def emit_def)
  have args: "gen_arg (VarNode name vty None) c =
     (''t'' @ to_string (temp_count c),
      c\<lparr>outcode := outcode c @ [ILoad (''t'' @ to_string (temp_count c)) name],
        temp_count := temp_count c + 1\<rparr>)"
    "gen_arg (VarNode name vty (Some index)) c =
     (let (idx_temp, c2) = gen_expr index (c\<lparr>temp_count := temp_count c + 1\<rparr>)
      in (''t'' @ to_string (temp_count c),
          emit (ILoadIdx (''t'' @ to_string (temp_count c)) name idx_temp) c2))"
    by (simp_all add: Let_def new_temp_def emit_def split_beta)
  show ?thesis
    by (intro conjI args cons p1 p2 call gen_arg.simps gen_args.simps render.simps)
qed

subsection \<open>Loop headers and the symbol cache\<close>



end
